theory Spec2Isabelle
  imports Complex_Main
begin

section \<open>Parabolic SAR backtest: the simulation engine of backtest_app.py\<close>

text \<open>
  The model starts from the data frame \<open>df\<close> as it stands after line 46 of
  backtest_app.py: the rows are in the order produced by \<open>sort_values('datetime')\<close>, and the
  column \<open>sar\<close> holds the output of the external indicator \<open>ta.trend.PSARIndicator\<close>,
  which is taken as given. Only the columns that the code reads afterwards are kept.

  Conventions of the embedding:
  \<^item> a finite float64 value is an exact real number in the columns of the run; the
    rounding of float64 is modelled apart, for lines 54 to 64, in the columns whose names
    end in 64;
  \<^item> a cell that pandas fills with NaN because data is missing (the first cell of a
    \<open>shift(1)\<close>, an empty resampling bucket, the standard deviation of fewer than two
    observations) is \<open>None\<close> in a column of type \<open>real option\<close>;
  \<^item> a float division by zero gives an infinity or NaN without raising. The quotients of
    lines 70 and 115, whose divisor is an equity, have these values in the type \<open>fval\<close>.
    The bar returns of lines 55 and 56 divide by a close; statements on their values
    assume \<open>valid_bars\<close>, that no close is zero.
\<close>

subsection \<open>Data\<close>

record timestamp =
  year :: int
  month :: int
  day :: int
  tod :: nat

record bar =
  datetime :: timestamp
  close :: real
  sar :: real

definition initial_capital :: real where
  "initial_capital = 100000"

definition transaction_cost :: real where
  "transaction_cost = 100"

subsection \<open>Column primitives of pandas\<close>

text \<open>\<open>Series.shift(1)\<close>: every cell receives the value of the cell before it, the first
  cell receives NaN.\<close>

fun shift_from :: "'a option \<Rightarrow> 'a list \<Rightarrow> 'a option list" where
  "shift_from p [] = []"
| "shift_from p (x # xs) = p # shift_from (Some x) xs"

definition shift1 :: "'a list \<Rightarrow> 'a option list" where
  "shift1 xs = shift_from None xs"

text \<open>\<open>Series.fillna(v)\<close>.\<close>

definition fillna :: "'a \<Rightarrow> 'a option list \<Rightarrow> 'a list" where
  "fillna v xs = map (\<lambda>x. case x of None \<Rightarrow> v | Some y \<Rightarrow> y) xs"

text \<open>\<open>sum\<close> as an aggregation skips NaN cells; the sum of no cell is 0.\<close>

definition nansum :: "real option list \<Rightarrow> real" where
  "nansum xs = sum_list (map (\<lambda>x. case x of None \<Rightarrow> 0 | Some y \<Rightarrow> y) xs)"

text \<open>\<open>last\<close> as an aggregation is the last cell that is not NaN, and NaN when there is
  none.\<close>

fun nanlast :: "'a option list \<Rightarrow> 'a option" where
  "nanlast [] = None"
| "nanlast (x # xs) = (case nanlast xs of Some y \<Rightarrow> Some y | None \<Rightarrow> x)"

text \<open>\<open>Series.cumsum()\<close>: a NaN cell stays NaN and is left out of the running sum.\<close>

fun cumsum_from :: "real \<Rightarrow> real option list \<Rightarrow> real option list" where
  "cumsum_from a [] = []"
| "cumsum_from a (None # xs) = None # cumsum_from a xs"
| "cumsum_from a (Some x # xs) = Some (a + x) # cumsum_from (a + x) xs"

definition cumsum :: "real option list \<Rightarrow> real option list" where
  "cumsum xs = cumsum_from 0 xs"

text \<open>The value of a float64 cell that may be infinite or NaN.\<close>

datatype fval = Fin real | PInf | NInf | NaN

text \<open>The float quotient of two finite numbers. A divisor that is zero is an equity, which
  is zero only as the sum \<open>100000 + (-100000)\<close>, that is \<open>+0.0\<close>: the quotient is then an
  infinity with the sign of the dividend, and NaN for \<open>0 / 0\<close>.\<close>

definition fdiv :: "real \<Rightarrow> real \<Rightarrow> fval" where
  "fdiv a b =
     (if b \<noteq> 0 then Fin (a / b)
      else if 0 < a then PInf
      else if a < 0 then NInf
      else NaN)"

text \<open>An increasing map of the reals (such as \<open>x - 1\<close> or \<open>x * 100\<close>) applied to a cell: an
  infinity keeps its sign and NaN stays NaN.\<close>

fun fmap :: "(real \<Rightarrow> real) \<Rightarrow> fval \<Rightarrow> fval" where
  "fmap f (Fin x) = Fin (f x)"
| "fmap f PInf = PInf"
| "fmap f NInf = NInf"
| "fmap f NaN = NaN"

subsection \<open>Signal and position (lines 47 and 52)\<close>

definition signal_cell :: "bar \<Rightarrow> int" where
  "signal_cell r = (if close r > sar r then 1 else if close r < sar r then -1 else 0)"

definition signal :: "bar list \<Rightarrow> int list" where
  "signal df = map signal_cell df"

definition position :: "bar list \<Rightarrow> int list" where
  "position df = fillna 0 (shift1 (signal df))"

subsection \<open>Returns, costs, net P&L and equity (lines 54 to 64)\<close>

definition trade_return_cell :: "int \<Rightarrow> real \<Rightarrow> real option \<Rightarrow> real option" where
  "trade_return_cell p c pc =
     (if p = 1 then map_option (\<lambda>q. c / q - 1) pc
      else if p = -1 then map_option (\<lambda>q. q / c - 1) pc
      else Some 0)"

definition trade_return :: "bar list \<Rightarrow> real option list" where
  "trade_return df =
     map (\<lambda>(p, c, pc). trade_return_cell p c pc)
       (zip (position df) (zip (map close df) (shift1 (map close df))))"

definition trade_pnl :: "bar list \<Rightarrow> real option list" where
  "trade_pnl df = map (map_option (\<lambda>r. r * initial_capital)) (trade_return df)"

text \<open>In \<open>position != position.shift(1)\<close> the comparison with the NaN of the first cell
  is true.\<close>

definition trade_cost_cell :: "int \<Rightarrow> int option \<Rightarrow> real" where
  "trade_cost_cell p pp = (if Some p \<noteq> pp \<and> p \<noteq> 0 then transaction_cost else 0)"

definition trade_cost :: "bar list \<Rightarrow> real list" where
  "trade_cost df =
     map (\<lambda>(p, pp). trade_cost_cell p pp) (zip (position df) (shift1 (position df)))"

definition net_pnl :: "bar list \<Rightarrow> real option list" where
  "net_pnl df = map (\<lambda>(tp, tc). map_option (\<lambda>x. x - tc) tp) (zip (trade_pnl df) (trade_cost df))"

definition equity :: "bar list \<Rightarrow> real option list" where
  "equity df = map (map_option (\<lambda>s. initial_capital + s)) (cumsum (net_pnl df))"

text \<open>The validity assumed of the prices: no close is zero, so that no bar return divides
  by zero.\<close>

definition valid_bars :: "bar list \<Rightarrow> bool" where
  "valid_bars df = list_all (\<lambda>r. close r \<noteq> 0) df"

subsection \<open>Calendar buckets and resampling (lines 69 and 114)\<close>

text \<open>The number of the calendar day of a timestamp, counted from 1970-01-01 in the
  proleptic Gregorian calendar, and the number of its calendar month.\<close>

definition day_no :: "timestamp \<Rightarrow> int" where
  "day_no t =
     (let y = (if month t \<le> 2 then year t - 1 else year t);
          era = y div 400;
          yoe = y - era * 400;
          mp = (if month t > 2 then month t - 3 else month t + 9);
          doy = (153 * mp + 2) div 5 + day t - 1;
          doe = yoe * 365 + yoe div 4 - yoe div 100 + doy
      in era * 146097 + doe - 719468)"

definition month_no :: "timestamp \<Rightarrow> int" where
  "month_no t = year t * 12 + (month t - 1)"

text \<open>\<open>resample\<close> makes one bucket for every period from the period of the earliest
  timestamp to the period of the latest one, whether or not a row falls into it.\<close>

definition bucket_keys :: "int list \<Rightarrow> int list" where
  "bucket_keys ks = (if ks = [] then [] else [Min (set ks)..Max (set ks)])"

definition bucket_cells :: "(timestamp \<Rightarrow> int) \<Rightarrow> int \<Rightarrow> bar list \<Rightarrow> 'a list \<Rightarrow> 'a list" where
  "bucket_cells key b df col =
     map snd (filter (\<lambda>(r, v). key (datetime r) = b) (zip df col))"

text \<open>\<open>df.resample(freq, on='datetime').agg({'net_pnl': 'sum', 'equity': 'last'})\<close>: a row
  is the bucket, the sum of its net P&L and its last equity.\<close>

definition resample :: "(timestamp \<Rightarrow> int) \<Rightarrow> bar list \<Rightarrow> (int \<times> real \<times> real option) list" where
  "resample key df =
     map (\<lambda>b. (b, nansum (bucket_cells key b df (net_pnl df)),
                  nanlast (bucket_cells key b df (equity df))))
       (bucket_keys (map (\<lambda>r. key (datetime r)) df))"

text \<open>\<open>dropna()\<close> removes the rows with a NaN cell; the sum of a bucket is never NaN.\<close>

definition dropna :: "(int \<times> real \<times> real option) list \<Rightarrow> (int \<times> real \<times> real) list" where
  "dropna tab = List.map_filter (\<lambda>(b, s, e). map_option (\<lambda>v. (b, s, v)) e) tab"

definition daily :: "bar list \<Rightarrow> (int \<times> real \<times> real) list" where
  "daily df = dropna (resample day_no df)"

definition daily_equity :: "bar list \<Rightarrow> real list" where
  "daily_equity df = map (\<lambda>(b, s, e). e) (daily df)"

text \<open>Line 70: the net P&L of the day divided by the equity of the day before (by
  \<open>initial_capital\<close> on the first day). A day that starts from an equity of 0 has an
  infinite or NaN return.\<close>

definition daily_ret :: "bar list \<Rightarrow> fval list" where
  "daily_ret df =
     map (\<lambda>((b, s, e), pe). fdiv s pe)
       (zip (daily df) (fillna initial_capital (shift1 (daily_equity df))))"

subsection \<open>Sharpe ratio and maximum drawdown (lines 72 and 73)\<close>

text \<open>\<open>Series.mean()\<close> and \<open>Series.std()\<close> leave the NaN cells out; the infinite cells
  stay in the sample.\<close>

definition observations :: "fval list \<Rightarrow> fval list" where
  "observations vs = filter (\<lambda>v. v \<noteq> NaN) vs"

fun finite_values :: "fval list \<Rightarrow> real list option" where
  "finite_values [] = Some []"
| "finite_values (Fin x # vs) = map_option (\<lambda>xs. x # xs) (finite_values vs)"
| "finite_values (v # vs) = None"

definition sample_mean :: "real list \<Rightarrow> real" where
  "sample_mean xs = sum_list xs / real (length xs)"

definition sample_std :: "real list \<Rightarrow> real" where
  "sample_std xs =
     sqrt (sum_list (map (\<lambda>x. (x - sample_mean xs)\<^sup>2) xs) / real (length xs - 1))"

text \<open>The mean of a sample with an infinite cell is that infinity, and NaN when both
  infinities occur.\<close>

definition mean :: "fval list \<Rightarrow> fval" where
  "mean vs =
     (let obs = observations vs
      in if obs = [] then NaN
         else case finite_values obs of
                Some xs \<Rightarrow> Fin (sample_mean xs)
              | None \<Rightarrow>
                  if PInf \<in> set obs \<and> NInf \<in> set obs then NaN
                  else if PInf \<in> set obs then PInf else NInf)"

text \<open>\<open>Series.std()\<close> is the sample standard deviation (one degree of freedom removed).
  It is NaN (\<open>None\<close>) for fewer than two observations, and for a sample with an infinite
  cell, whose deviation from the infinite mean is \<open>inf - inf\<close>.\<close>

definition std :: "fval list \<Rightarrow> real option" where
  "std vs =
     (let obs = observations vs
      in if length obs < 2 then None
         else map_option sample_std (finite_values obs))"

text \<open>Line 72. A comparison with NaN is false, so a NaN deviation takes the \<open>else\<close>
  branch.\<close>

definition sharpe_of :: "fval list \<Rightarrow> fval" where
  "sharpe_of rets =
     (case std rets of
        None \<Rightarrow> NaN
      | Some s \<Rightarrow> if s > 0 then fmap (\<lambda>m. m / s * sqrt 252) (mean rets) else NaN)"

definition sharpe :: "bar list \<Rightarrow> fval" where
  "sharpe df = sharpe_of (daily_ret df)"

fun cummax_from :: "real \<Rightarrow> real list \<Rightarrow> real list" where
  "cummax_from m [] = []"
| "cummax_from m (x # xs) = max m x # cummax_from (max m x) xs"

definition cummax :: "real list \<Rightarrow> real list" where
  "cummax xs = (case xs of [] \<Rightarrow> [] | x # _ \<Rightarrow> cummax_from x xs)"

definition drawdown :: "real list \<Rightarrow> real list" where
  "drawdown es = map (\<lambda>(m, e). (m - e) / m) (zip (cummax es) es)"

text \<open>\<open>Series.max()\<close> of a series without cells is NaN.\<close>

definition series_max :: "real list \<Rightarrow> real option" where
  "series_max xs = (if xs = [] then None else Some (Max (set xs)))"

definition max_dd :: "bar list \<Rightarrow> real option" where
  "max_dd df = series_max (drawdown (daily_equity df))"

subsection \<open>Trade log (lines 95 to 106)\<close>

record trade =
  entry_time :: timestamp
  entry_price :: real
  exit_time :: timestamp
  exit_price :: real
  direction :: int
  pnl :: real

definition prev_position :: "bar list \<Rightarrow> int list" where
  "prev_position df = fillna 0 (shift1 (position df))"

definition trade_start :: "bar list \<Rightarrow> bool list" where
  "trade_start df = map (\<lambda>(p, pp). p \<noteq> pp \<and> p \<noteq> 0) (zip (position df) (prev_position df))"

text \<open>\<open>cumsum\<close> of a Boolean column counts the true cells so far.\<close>

fun count_from :: "nat \<Rightarrow> bool list \<Rightarrow> nat list" where
  "count_from n [] = []"
| "count_from n (b # bs) = (if b then Suc n else n) # count_from (if b then Suc n else n) bs"

definition trade_id :: "bar list \<Rightarrow> nat list" where
  "trade_id df = count_from 0 (trade_start df)"

text \<open>The aggregation of one group: \<open>first\<close> and \<open>last\<close> of datetime and close, \<open>first\<close>
  of position, \<open>sum\<close> of net P&L. A group of \<open>groupby\<close> is never empty.\<close>

fun agg_trade :: "(bar \<times> int \<times> real option) list \<Rightarrow> trade option" where
  "agg_trade [] = None"
| "agg_trade (x # xs) =
     Some \<lparr>entry_time = datetime (fst x),
           entry_price = close (fst x),
           exit_time = datetime (fst (last (x # xs))),
           exit_price = close (fst (last (x # xs))),
           direction = fst (snd x),
           pnl = nansum (map (\<lambda>(r, p, n). n) (x # xs))\<rparr>"

text \<open>\<open>df[df['trade_id'] > 0].groupby('trade_id')\<close>: the groups are taken in increasing
  order of the key, each with its rows in frame order.\<close>

definition trade_groups :: "bar list \<Rightarrow> (bar \<times> int \<times> real option) list list" where
  "trade_groups df =
     (let sel = filter (\<lambda>(k, x). k > 0)
                  (zip (trade_id df) (zip df (zip (position df) (net_pnl df))))
      in map (\<lambda>k. map snd (filter (\<lambda>(k', x). k' = k) sel)) (sort (remdups (map fst sel))))"

definition trade_log :: "bar list \<Rightarrow> trade list" where
  "trade_log df = List.map_filter agg_trade (trade_groups df)"

subsection \<open>Monthly returns (lines 114 and 115)\<close>

definition monthly :: "bar list \<Rightarrow> (int \<times> real \<times> real option) list" where
  "monthly df = resample month_no df"

definition monthly_equity :: "bar list \<Rightarrow> real option list" where
  "monthly_equity df = map (\<lambda>(b, s, e). e) (monthly df)"

fun ffill_from :: "'a option \<Rightarrow> 'a option list \<Rightarrow> 'a option list" where
  "ffill_from p [] = []"
| "ffill_from p (None # xs) = p # ffill_from p xs"
| "ffill_from p (Some y # xs) = Some y # ffill_from (Some y) xs"

text \<open>\<open>Series.pct_change()\<close> fills the NaN cells forward (its default \<open>fill_method\<close>
  is \<open>'pad'\<close> in the pandas releases that accept the frequency \<open>'M'\<close>), then divides
  every cell by the cell before it and subtracts 1.\<close>

definition pct_change_cell :: "real option \<Rightarrow> real option option \<Rightarrow> fval" where
  "pct_change_cell e pe =
     (case (e, pe) of
        (Some a, Some (Some b)) \<Rightarrow> fmap (\<lambda>q. q - 1) (fdiv a b)
      | _ \<Rightarrow> NaN)"

definition pct_change :: "real option list \<Rightarrow> fval list" where
  "pct_change es =
     (let f = ffill_from None es
      in map (\<lambda>(e, pe). pct_change_cell e pe) (zip f (shift1 f)))"

definition monthly_return :: "bar list \<Rightarrow> fval list" where
  "monthly_return df = map (fmap (\<lambda>x. x * 100)) (pct_change (monthly_equity df))"

subsection \<open>The whole run (lines 43 to 118)\<close>

record summary =
  final_equity :: "real option"
  total_return_pct :: "real option"
  sharpe_ratio :: fval
  max_drawdown :: "real option"

record report =
  summary_metrics :: summary
  trades :: "trade list"
  monthly_table :: "((int \<times> real \<times> real option) \<times> fval) list"

datatype error = IndexError

text \<open>The code has no check of the number of bars. A frame without rows does not reach
  the lines modelled here: the constructor of the external indicator, called at line 44,
  reads the first high and raises IndexError. The first branch stands for that failure
  of the library; no statement below is about it.\<close>

definition backtest :: "bar list \<Rightarrow> error + report" where
  "backtest df =
     (if df = [] then Inl IndexError
      else Inr \<lparr>summary_metrics =
                  \<lparr>final_equity = last (equity df),
                   total_return_pct =
                     map_option (\<lambda>e. (e / initial_capital - 1) * 100) (last (equity df)),
                   sharpe_ratio = sharpe df,
                   max_drawdown = max_dd df\<rparr>,
                trades = trade_log df,
                monthly_table = zip (monthly df) (monthly_return df)\<rparr>)"

text \<open>The net P&L cells of the bars whose position is flat.\<close>

definition flat_pnl :: "bar list \<Rightarrow> real option list" where
  "flat_pnl df = map snd (filter (\<lambda>(p, n). p = 0) (zip (position df) (net_pnl df)))"

subsection \<open>Lines 54 to 64 in float64\<close>

text \<open>Rounding to the nearest float64, ties to even, for numbers in the normal range:
  \<open>binade\<close> is the exponent \<open>e\<close> with \<open>2^e \<le> x < 2^(e+1)\<close>, and the result is the
  nearest multiple of \<open>2^(e-52)\<close>. Overflow and subnormal numbers are not modelled.\<close>

definition pow2 :: "int \<Rightarrow> real" where
  "pow2 e = (if 0 \<le> e then 2 ^ nat e else 1 / 2 ^ nat (- e))"

fun binade :: "nat \<Rightarrow> real \<Rightarrow> int" where
  "binade 0 x = 0"
| "binade (Suc n) x =
     (if 2 \<le> x then binade n (x / 2) + 1
      else if x < 1 then binade n (x * 2) - 1
      else 0)"

definition rne :: "real \<Rightarrow> int" where
  "rne y =
     (let f = \<lfloor>y\<rfloor>; d = y - of_int f
      in if d < 1 / 2 then f
         else if 1 / 2 < d then f + 1
         else if even f then f else f + 1)"

definition round64 :: "real \<Rightarrow> real" where
  "round64 x =
     (if x = 0 then 0
      else let e = binade 2098 \<bar>x\<bar>
           in of_int (rne (x * pow2 (52 - e))) * pow2 (e - 52))"

text \<open>The columns of lines 54 to 64 with every arithmetic operation rounded. The closes
  are float64 values; the positions and the costs are exact.\<close>

definition trade_return64_cell :: "int \<Rightarrow> real \<Rightarrow> real option \<Rightarrow> real option" where
  "trade_return64_cell p c pc =
     (if p = 1 then map_option (\<lambda>q. round64 (round64 (c / q) - 1)) pc
      else if p = -1 then map_option (\<lambda>q. round64 (round64 (q / c) - 1)) pc
      else Some 0)"

definition trade_return64 :: "bar list \<Rightarrow> real option list" where
  "trade_return64 df =
     map (\<lambda>(p, c, pc). trade_return64_cell p c pc)
       (zip (position df) (zip (map close df) (shift1 (map close df))))"

definition trade_pnl64 :: "bar list \<Rightarrow> real option list" where
  "trade_pnl64 df = map (map_option (\<lambda>r. round64 (r * initial_capital))) (trade_return64 df)"

definition net_pnl64 :: "bar list \<Rightarrow> real option list" where
  "net_pnl64 df =
     map (\<lambda>(tp, tc). map_option (\<lambda>x. round64 (x - tc)) tp) (zip (trade_pnl64 df) (trade_cost df))"

fun cumsum64_from :: "real \<Rightarrow> real option list \<Rightarrow> real option list" where
  "cumsum64_from a [] = []"
| "cumsum64_from a (None # xs) = None # cumsum64_from a xs"
| "cumsum64_from a (Some x # xs) = Some (round64 (a + x)) # cumsum64_from (round64 (a + x)) xs"

definition equity64 :: "bar list \<Rightarrow> real option list" where
  "equity64 df =
     map (map_option (\<lambda>s. round64 (initial_capital + s))) (cumsum64_from 0 (net_pnl64 df))"

subsection \<open>Example frames\<close>

definition ts :: "int \<Rightarrow> int \<Rightarrow> int \<Rightarrow> timestamp" where
  "ts y m d = \<lparr>year = y, month = m, day = d, tod = 0\<rparr>"

definition mk_bar :: "timestamp \<Rightarrow> real \<Rightarrow> real \<Rightarrow> bar" where
  "mk_bar t c s = \<lparr>datetime = t, close = c, sar = s\<rparr>"

text \<open>A long entry is stopped out after one bar and the reversal is stopped out again: two
  losses of 60 percent of the fixed notional.\<close>

definition whipsaw :: "bar list" where
  "whipsaw =
     [mk_bar (ts 2024 1 1) 90 90, mk_bar (ts 2024 1 2) 90 90, mk_bar (ts 2024 1 3) 100 89,
      mk_bar (ts 2024 1 4) 40 101, mk_bar (ts 2024 1 5) 100 39]"

text \<open>A long position of one bar: that bar closes exactly on the SAR level, so that the
  position of the bar after it is flat.\<close>

definition flat_after_run :: "bar list" where
  "flat_after_run =
     [mk_bar (ts 2024 1 1) 90 90, mk_bar (ts 2024 1 2) 90 90, mk_bar (ts 2024 1 3) 100 89,
      mk_bar (ts 2024 1 4) 101 101, mk_bar (ts 2024 1 5) 95 101]"

text \<open>A long position that gains 10 percent on its first bar, after a month without
  bars. The SAR column is the one of the indicator for highs 91, 91, 101, 111 and lows
  89, 89, 99, 105.\<close>

definition gain_after_gap :: "bar list" where
  "gain_after_gap =
     [mk_bar (ts 2024 1 30) 90 90, mk_bar (ts 2024 1 31) 90 90, mk_bar (ts 2024 3 1) 100 89,
      mk_bar (ts 2024 3 4) 110 89]"

text \<open>A long position that loses 99.9 percent on its first bar: with the cost the
  equity of that day is exactly 0, and the next day has the cost of the reversal.\<close>

definition wipeout :: "bar list" where
  "wipeout =
     [mk_bar (ts 2024 1 1) 1000 1000, mk_bar (ts 2024 1 2) 1000 1000,
      mk_bar (ts 2024 1 3) 2000 990, mk_bar (ts 2024 1 4) 2 2010, mk_bar (ts 2024 1 5) 2 2010]"

text \<open>Bars in January, March and April, none in February.\<close>

definition gap_months :: "bar list" where
  "gap_months =
     [mk_bar (ts 2024 1 30) 90 90, mk_bar (ts 2024 1 31) 90 80, mk_bar (ts 2024 3 1) 99 85,
      mk_bar (ts 2024 3 4) 110 88, mk_bar (ts 2024 4 2) 121 90]"

section \<open>Properties\<close>

subsection \<open>Columns have the length of the frame\<close>

lemma length_shift_from: "length (shift_from p xs) = length xs"
  by (induction xs arbitrary: p) auto

lemma length_shift1: "length (shift1 xs) = length xs"
  by (simp add: shift1_def length_shift_from)

lemma length_fillna: "length (fillna v xs) = length xs"
  by (simp add: fillna_def)

lemma length_signal: "length (signal df) = length df"
  by (simp add: signal_def)

lemma length_position: "length (position df) = length df"
  by (simp add: position_def length_fillna length_shift1 length_signal)

lemma length_trade_return: "length (trade_return df) = length df"
  by (simp add: trade_return_def length_position length_shift1)

lemma length_trade_pnl: "length (trade_pnl df) = length df"
  by (simp add: trade_pnl_def length_trade_return)

lemma length_trade_cost: "length (trade_cost df) = length df"
  by (simp add: trade_cost_def length_position length_shift1)

lemma length_net_pnl: "length (net_pnl df) = length df"
  by (simp add: net_pnl_def length_trade_pnl length_trade_cost)

lemma length_cumsum_from: "length (cumsum_from a xs) = length xs"
  by (induction a xs rule: cumsum_from.induct) auto

lemma length_equity: "length (equity df) = length df"
  by (simp add: equity_def cumsum_def length_cumsum_from length_net_pnl)

subsection \<open>Cells of shifted columns\<close>

lemma shift_from_nth:
  "i < length xs \<Longrightarrow> shift_from p xs ! i = (if i = 0 then p else Some (xs ! (i - 1)))"
proof (induction xs arbitrary: p i)
  case Nil
  then show ?case by simp
next
  case (Cons x xs)
  show ?case
  proof (cases i)
    case 0
    then show ?thesis by simp
  next
    case (Suc j)
    with Cons.prems have "j < length xs" by simp
    from Cons.IH [OF this] Suc show ?thesis
      by (cases j) auto
  qed
qed

lemma shift1_nth:
  "i < length xs \<Longrightarrow> shift1 xs ! i = (if i = 0 then None else Some (xs ! (i - 1)))"
  by (simp add: shift1_def shift_from_nth)

lemma position_nth:
  "i < length df \<Longrightarrow> position df ! i = (if i = 0 then 0 else signal df ! (i - 1))"
  by (simp add: position_def fillna_def length_shift1 length_signal shift1_nth)

lemma trade_cost_nth:
  "i < length df \<Longrightarrow>
   trade_cost df ! i = trade_cost_cell (position df ! i) (shift1 (position df) ! i)"
  by (simp add: trade_cost_def length_position length_shift1)

lemma trade_return_nth:
  "i < length df \<Longrightarrow>
   trade_return df ! i =
     trade_return_cell (position df ! i) (close (df ! i)) (shift1 (map close df) ! i)"
  by (simp add: trade_return_def length_position length_shift1)

lemma net_pnl_nth:
  "i < length df \<Longrightarrow>
   net_pnl df ! i =
     map_option (\<lambda>x. x - trade_cost df ! i)
       (map_option (\<lambda>r. r * initial_capital) (trade_return df ! i))"
  by (simp add: net_pnl_def trade_pnl_def length_trade_return length_trade_cost)

lemma net_pnl_flat:
  assumes "i < length df" and "position df ! i = 0"
  shows "net_pnl df ! i = Some 0"
  using assms
  by (simp add: net_pnl_nth trade_return_nth trade_cost_nth trade_return_cell_def
      trade_cost_cell_def)

lemma cumsum_from_hd:
  "cumsum_from a (Some x # xs) ! 0 = Some (a + x)"
  by simp

subsection \<open>Claims on signal, position and cost\<close>

text \<open>
  Claim C5. On every bar after the first, the cost charged is \<open>transaction_cost\<close> exactly
  when the position of the bar is not flat and differs from the position of the bar
  before, and 0 otherwise; on the first bar the position is flat and the cost is 0.
\<close>

theorem C5_trade_cost:
  "i < length df \<Longrightarrow>
     trade_cost df ! i =
       (if 0 < i \<and> position df ! i \<noteq> 0 \<and> position df ! i \<noteq> position df ! (i - 1)
        then transaction_cost else 0)
     \<and> position df ! 0 = 0"
proof -
  assume i: "i < length df"
  then have "0 < length df" by (cases df) auto
  then have p0: "position df ! 0 = 0"
    by (simp add: position_nth)
  have "trade_cost df ! i =
       (if 0 < i \<and> position df ! i \<noteq> 0 \<and> position df ! i \<noteq> position df ! (i - 1)
        then transaction_cost else 0)"
    using i p0 by (auto simp: trade_cost_nth shift1_nth length_position trade_cost_cell_def)
  with p0 show ?thesis by simp
qed

theorem C5_trade_cost_witness:
  "3 < length whipsaw \<and> trade_cost whipsaw ! 3 = transaction_cost"
  using C5_trade_cost [of 3 whipsaw]
  by (simp add: whipsaw_def mk_bar_def position_def signal_def signal_cell_def fillna_def
      shift1_def)

text \<open>
  Claim C6. The position of every bar after the first is the signal of the bar before,
  the signal of a bar is the sign of close minus SAR (1 above, -1 below, 0 at equality),
  and the position of the first bar is 0.
\<close>

theorem C6_position_lags_signal:
  "i < length df \<Longrightarrow>
     position df ! i = (if i = 0 then 0 else signal df ! (i - 1))
     \<and> real_of_int (signal df ! i) = sgn (close (df ! i) - sar (df ! i))
     \<and> signal df ! i =
         (if close (df ! i) > sar (df ! i) then 1
          else if close (df ! i) < sar (df ! i) then -1 else 0)"
  by (auto simp: position_nth signal_def signal_cell_def sgn_if)

theorem C6_position_lags_signal_witness:
  "3 < length whipsaw \<and> position whipsaw ! 3 = 1 \<and> signal whipsaw ! 3 = -1"
  using C6_position_lags_signal [of 3 whipsaw]
  by (simp add: whipsaw_def mk_bar_def signal_def signal_cell_def)

text \<open>
  Claim C7. For every frame with at least one bar, the equity of the first bar is the
  initial capital: the first position is flat and the first net P&L is 0.
\<close>

theorem C7_equity_first_bar:
  "df \<noteq> [] \<Longrightarrow>
     position df ! 0 = 0 \<and> net_pnl df ! 0 = Some 0 \<and> equity df ! 0 = Some initial_capital"
proof -
  assume ne: "df \<noteq> []"
  then have len: "0 < length df" by simp
  have p0: "position df ! 0 = 0"
    using len by (simp add: position_nth)
  have n0: "net_pnl df ! 0 = Some 0"
    using len p0 by (rule net_pnl_flat)
  obtain x xs where nx: "net_pnl df = x # xs"
    using len length_net_pnl [of df] by (cases "net_pnl df") auto
  with n0 have "x = Some 0" by simp
  with nx have "equity df ! 0 = Some initial_capital"
    by (simp add: equity_def cumsum_def)
  with p0 n0 show ?thesis by simp
qed

theorem C7_equity_first_bar_witness:
  "whipsaw \<noteq> [] \<and> equity whipsaw ! 0 = Some 100000"
  using C7_equity_first_bar [of whipsaw]
  by (simp add: whipsaw_def initial_capital_def)

subsection \<open>Net P&L is never NaN; the final equity\<close>

lemma trade_return_some:
  assumes "i < length df"
  shows "trade_return df ! i \<noteq> None"
proof (cases i)
  case 0
  with assms have "position df ! i = 0" by (simp add: position_nth)
  with assms show ?thesis by (simp add: trade_return_nth trade_return_cell_def)
next
  case (Suc j)
  with assms show ?thesis
    by (simp add: trade_return_nth trade_return_cell_def shift1_nth)
qed

lemma net_pnl_some:
  assumes "i < length df"
  shows "net_pnl df ! i \<noteq> None"
  using assms trade_return_some [OF assms] by (simp add: net_pnl_nth)

lemma net_pnl_all_some: "\<forall>x\<in>set (net_pnl df). x \<noteq> None"
  using net_pnl_some [of _ df] by (auto simp: in_set_conv_nth length_net_pnl)

lemma last_cumsum_from:
  "xs \<noteq> [] \<Longrightarrow> \<forall>x\<in>set xs. x \<noteq> None \<Longrightarrow> last (cumsum_from a xs) = Some (a + nansum xs)"
proof (induction xs arbitrary: a)
  case Nil
  then show ?case by simp
next
  case (Cons x xs)
  from Cons.prems obtain v where x: "x = Some v" by auto
  show ?case
  proof (cases "xs = []")
    case True
    with x show ?thesis by (simp add: nansum_def)
  next
    case False
    then have "cumsum_from (a + v) xs \<noteq> []"
      using length_cumsum_from [of "a + v" xs] by auto
    moreover have "last (cumsum_from (a + v) xs) = Some (a + v + nansum xs)"
      using Cons.IH [OF False] Cons.prems by simp
    ultimately show ?thesis using x by (simp add: nansum_def)
  qed
qed

lemma last_equity:
  assumes "df \<noteq> []"
  shows "last (equity df) = Some (initial_capital + nansum (net_pnl df))"
proof -
  have ne: "net_pnl df \<noteq> []"
    using assms length_net_pnl [of df] by auto
  then have "cumsum (net_pnl df) \<noteq> []"
    using length_cumsum_from [of 0 "net_pnl df"] by (auto simp: cumsum_def)
  then have "last (equity df) =
      map_option (\<lambda>s. initial_capital + s) (last (cumsum (net_pnl df)))"
    by (simp add: equity_def last_map)
  also have "last (cumsum (net_pnl df)) = Some (0 + nansum (net_pnl df))"
    unfolding cumsum_def using ne net_pnl_all_some by (rule last_cumsum_from)
  finally show ?thesis by simp
qed

subsection \<open>Trade identifiers and groups\<close>

lemma length_count_from: "length (count_from n bs) = length bs"
  by (induction bs arbitrary: n) auto

lemma count_from_ge: "i < length bs \<Longrightarrow> n \<le> count_from n bs ! i"
proof (induction bs arbitrary: n i)
  case Nil
  then show ?case by simp
next
  case (Cons b bs)
  show ?case
  proof (cases i)
    case 0
    then show ?thesis by simp
  next
    case (Suc j)
    with Cons.prems have "j < length bs" by simp
    from Cons.IH [OF this, of "if b then Suc n else n"] Suc show ?thesis
      by (simp split: if_splits)
  qed
qed

lemma count_from_no_start:
  "i < length bs \<Longrightarrow> count_from n bs ! i = n \<Longrightarrow> j \<le> i \<Longrightarrow> \<not> bs ! j"
proof (induction bs arbitrary: n i j)
  case Nil
  then show ?case by simp
next
  case (Cons b bs)
  have nb: "\<not> b"
  proof
    assume b: b
    show False
    proof (cases i)
      case 0
      with Cons.prems b show False by simp
    next
      case (Suc k)
      with Cons.prems have "k < length bs" by simp
      from count_from_ge [OF this, of "Suc n"] Suc Cons.prems(2) b show False by simp
    qed
  qed
  show ?case
  proof (cases j)
    case 0
    with nb show ?thesis by simp
  next
    case (Suc j')
    with Cons.prems obtain i' where i': "i = Suc i'" by (cases i) auto
    with Cons.prems Suc nb have "i' < length bs" "count_from n bs ! i' = n" "j' \<le> i'"
      by auto
    from Cons.IH [OF this] Suc show ?thesis by simp
  qed
qed

lemma length_prev_position: "length (prev_position df) = length df"
  by (simp add: prev_position_def length_fillna length_shift1 length_position)

lemma prev_position_nth:
  "i < length df \<Longrightarrow> prev_position df ! i = (if i = 0 then 0 else position df ! (i - 1))"
  by (simp add: prev_position_def fillna_def length_shift1 length_position shift1_nth)

lemma length_trade_start: "length (trade_start df) = length df"
  by (simp add: trade_start_def length_position length_prev_position)

lemma trade_start_nth:
  "i < length df \<Longrightarrow>
   trade_start df ! i = (position df ! i \<noteq> prev_position df ! i \<and> position df ! i \<noteq> 0)"
  by (simp add: trade_start_def length_position length_prev_position)

lemma length_trade_id: "length (trade_id df) = length df"
  by (simp add: trade_id_def length_count_from length_trade_start)

lemma no_start_flat:
  "i < length df \<Longrightarrow> \<forall>j\<le>i. \<not> trade_start df ! j \<Longrightarrow> position df ! i = 0"
proof (induction i)
  case 0
  then show ?case by (simp add: position_nth)
next
  case (Suc i)
  then have "position df ! i = 0" by simp
  moreover have "\<not> trade_start df ! Suc i" using Suc.prems by simp
  ultimately show ?case
    using Suc.prems(1) by (simp add: trade_start_nth prev_position_nth)
qed

lemma trade_id_zero_flat:
  assumes "i < length df" and "trade_id df ! i = 0"
  shows "position df ! i = 0"
proof -
  have "\<forall>j\<le>i. \<not> trade_start df ! j"
    using count_from_no_start [of i "trade_start df" 0] assms
    by (simp add: trade_id_def length_trade_start)
  with assms(1) show ?thesis by (rule no_start_flat)
qed

lemma sum_list_by_key:
  "finite A \<Longrightarrow> f ` set xs \<subseteq> A \<Longrightarrow>
   (\<Sum>k\<in>A. sum_list (map g (filter (\<lambda>x. f x = k) xs))) = (sum_list (map g xs) :: real)"
proof (induction xs)
  case Nil
  then show ?case by simp
next
  case (Cons x xs)
  then have fx: "f x \<in> A" and sub: "f ` set xs \<subseteq> A" by auto
  have "(\<Sum>k\<in>A. sum_list (map g (filter (\<lambda>y. f y = k) (x # xs)))) =
        (\<Sum>k\<in>A. (if k = f x then g x else 0) + sum_list (map g (filter (\<lambda>y. f y = k) xs)))"
    by (rule sum.cong) auto
  also have "\<dots> = (\<Sum>k\<in>A. if k = f x then g x else 0)
                  + (\<Sum>k\<in>A. sum_list (map g (filter (\<lambda>y. f y = k) xs)))"
    by (rule sum.distrib)
  also have "(\<Sum>k\<in>A. if k = f x then g x else 0) = g x"
    using Cons.prems(1) fx by simp
  finally show ?case using Cons.IH [OF Cons.prems(1) sub] by simp
qed

lemma sum_list_groups:
  fixes g :: "'b \<Rightarrow> real" and sel :: "(nat \<times> 'b) list"
  shows "sum_list (map (\<lambda>k. sum_list (map g (map snd (filter (\<lambda>(k', x). k' = k) sel))))
           (sort (remdups (map fst sel)))) = sum_list (map (g \<circ> snd) sel)"
proof -
  let ?ks = "sort (remdups (map fst sel))"
  have d: "distinct ?ks" by simp
  have s: "set ?ks = fst ` set sel" by simp
  have "sum_list (map (\<lambda>k. sum_list (map g (map snd (filter (\<lambda>(k', x). k' = k) sel)))) ?ks)
        = (\<Sum>k\<in>set ?ks. sum_list (map g (map snd (filter (\<lambda>(k', x). k' = k) sel))))"
    using d by (rule sum_list_distinct_conv_sum_set)
  also have "\<dots> = (\<Sum>k\<in>fst ` set sel. sum_list (map (g \<circ> snd) (filter (\<lambda>y. fst y = k) sel)))"
    unfolding s by (rule sum.cong) (simp_all add: case_prod_unfold)
  also have "\<dots> = sum_list (map (g \<circ> snd) sel)"
    by (rule sum_list_by_key) auto
  finally show ?thesis .
qed

lemma pnl_map_filter_agg:
  "\<forall>g\<in>set gs. g \<noteq> [] \<Longrightarrow>
   map pnl (List.map_filter agg_trade gs) = map (\<lambda>g. nansum (map (\<lambda>(r, p, n). n) g)) gs"
proof (induction gs)
  case Nil
  then show ?case by simp
next
  case (Cons g gs)
  then obtain x xs where "g = x # xs" by (cases g) auto
  with Cons show ?case by simp
qed

lemma groups_nonempty:
  "\<forall>g\<in>set (map (\<lambda>k. map snd (filter (\<lambda>(k', x). k' = k) sel)) (sort (remdups (map fst sel)))).
     g \<noteq> []"
  by (auto simp: filter_empty_conv)

lemma trade_groups_nonempty: "\<forall>g\<in>set (trade_groups df). g \<noteq> []"
  unfolding trade_groups_def Let_def by (rule groups_nonempty)

lemma flat_rows_zero:
  assumes "(k, r, p, n) \<in> set (zip (trade_id df) (zip df (zip (position df) (net_pnl df))))"
    and "\<not> 0 < k"
  shows "(case n of None \<Rightarrow> 0 | Some y \<Rightarrow> y) = (0 :: real)"
proof -
  from assms(1) obtain i where i: "i < length df"
    and k: "k = trade_id df ! i" and n: "n = net_pnl df ! i"
    by (auto simp: in_set_zip length_trade_id length_position length_net_pnl)
  from assms(2) k have "trade_id df ! i = 0" by simp
  with i have "position df ! i = 0" by (rule trade_id_zero_flat)
  with i have "net_pnl df ! i = Some 0" by (rule net_pnl_flat)
  with n show ?thesis by simp
qed

lemma trade_log_pnl_sum:
  "sum_list (map pnl (trade_log df)) = nansum (net_pnl df)"
proof -
  let ?frame = "zip (trade_id df) (zip df (zip (position df) (net_pnl df)))"
  let ?sel = "filter (\<lambda>(k, x). 0 < k) ?frame"
  let ?val = "\<lambda>(r :: bar, p :: int, n :: real option). case n of None \<Rightarrow> (0 :: real) | Some y \<Rightarrow> y"
  have "map pnl (trade_log df) = map (\<lambda>g. nansum (map (\<lambda>(r, p, n). n) g)) (trade_groups df)"
    unfolding trade_log_def using trade_groups_nonempty by (rule pnl_map_filter_agg)
  also have "\<dots> = map (\<lambda>g. sum_list (map ?val g)) (trade_groups df)"
    by (simp add: nansum_def comp_def case_prod_unfold)
  finally have "sum_list (map pnl (trade_log df)) =
      sum_list (map (\<lambda>k. sum_list (map ?val (map snd (filter (\<lambda>(k', x). k' = k) ?sel))))
        (sort (remdups (map fst ?sel))))"
    by (simp add: trade_groups_def Let_def comp_def)
  also have "\<dots> = sum_list (map (?val \<circ> snd) ?sel)"
    by (rule sum_list_groups)
  also have "\<dots> = sum_list (map (?val \<circ> snd) ?frame)"
    by (rule sum_list_map_filter) (auto dest: flat_rows_zero)
  also have "map (?val \<circ> snd) ?frame =
      map (\<lambda>n. case n of None \<Rightarrow> 0 | Some y \<Rightarrow> y) (map (snd \<circ> snd \<circ> snd) ?frame)"
    by (simp add: comp_def case_prod_unfold)
  also have "map (snd \<circ> snd \<circ> snd) ?frame = net_pnl df"
    by (simp add: map_snd_zip length_trade_id length_position length_net_pnl
        flip: map_map)
  finally show ?thesis by (simp add: nansum_def)
qed

subsection \<open>Reconciliation of equity, trades and net P&L\<close>

lemma sum_list_all_zero: "\<forall>x\<in>set xs. f x = 0 \<Longrightarrow> sum_list (map f xs) = (0 :: real)"
  by (induction xs) auto

lemma flat_pnl_zero: "nansum (flat_pnl df) = 0"
proof -
  have "\<forall>x\<in>set (flat_pnl df). x = Some 0"
    by (auto simp: flat_pnl_def in_set_zip length_position length_net_pnl net_pnl_flat)
  then have "\<forall>x\<in>set (flat_pnl df). (case x of None \<Rightarrow> 0 | Some y \<Rightarrow> y) = (0 :: real)"
    by auto
  then show ?thesis
    unfolding nansum_def by (rule sum_list_all_zero)
qed

text \<open>
  Claim C2, as amended. For every frame of valid bars, with the sums taken in exact
  arithmetic, the final equity minus the initial capital is the sum of the P&L of the
  trades of the log plus the net P&L of the flat bars, which is 0; it is also the sum of
  the net P&L of all bars, none of which is NaN. In float64 these quantities agree up to
  rounding only.
\<close>

theorem C2_reconciliation:
  "df \<noteq> [] \<Longrightarrow> valid_bars df \<Longrightarrow>
     map_option (\<lambda>e. e - initial_capital) (last (equity df)) =
       Some (sum_list (map pnl (trade_log df)) + nansum (flat_pnl df))
     \<and> nansum (flat_pnl df) = 0
     \<and> map_option (\<lambda>e. e - initial_capital) (last (equity df)) = Some (nansum (net_pnl df))
     \<and> list_all (\<lambda>x. x \<noteq> None) (net_pnl df)"
  using last_equity [of df] trade_log_pnl_sum [of df] flat_pnl_zero [of df]
    net_pnl_all_some [of df]
  by (simp add: list_all_iff)

lemma whipsaw_net_pnl:
  "net_pnl whipsaw = [Some 0, Some 0, Some 0, Some (- 60100), Some (- 60100)]"
  by (simp add: whipsaw_def mk_bar_def net_pnl_def trade_pnl_def trade_return_def trade_cost_def
      trade_return_cell_def trade_cost_cell_def position_def signal_def signal_cell_def fillna_def
      shift1_def initial_capital_def transaction_cost_def)

theorem C2_reconciliation_witness:
  "whipsaw \<noteq> [] \<and> valid_bars whipsaw
   \<and> map_option (\<lambda>e. e - initial_capital) (last (equity whipsaw)) = Some (- 120200)
   \<and> sum_list (map pnl (trade_log whipsaw)) = - 120200"
proof -
  have h1: "whipsaw \<noteq> []"
    by (simp add: whipsaw_def)
  have h2: "valid_bars whipsaw"
    by (simp add: whipsaw_def valid_bars_def mk_bar_def)
  have n: "nansum (net_pnl whipsaw) = - 120200"
    by (simp add: whipsaw_net_pnl nansum_def)
  from C2_reconciliation [OF h1 h2] n h1 h2 show ?thesis
    by auto
qed

subsection \<open>Reconciliation in float64\<close>

lemma binade_numeral:
  "binade (numeral k) x =
     (if 2 \<le> x then binade (pred_numeral k) (x / 2) + 1
      else if x < 1 then binade (pred_numeral k) (x * 2) - 1
      else 0)"
  by (simp add: numeral_eq_Suc)

lemma round64_ratio: "round64 (110 / 100) = 4953959590107546 / 2 ^ 52"
  by (simp add: round64_def rne_def pow2_def Let_def binade_numeral)

lemma round64_less_one: "round64 (4953959590107546 / 2 ^ 52 - 1) = 450359962737050 / 2 ^ 52"
  by (simp add: round64_def rne_def pow2_def Let_def binade_numeral)

lemma round64_pnl: "round64 (450359962737050 / 2 ^ 52 * 100000) = 10000 + 5 / 2 ^ 39"
  by (simp add: round64_def rne_def pow2_def Let_def binade_numeral)

lemma round64_net: "round64 (10000 + 5 / 2 ^ 39 - 100) = 9900 + 5 / 2 ^ 39"
  by (simp add: round64_def rne_def pow2_def Let_def binade_numeral)

lemma round64_sum: "round64 (0 + (9900 + 5 / 2 ^ 39)) = 9900 + 5 / 2 ^ 39"
  by (simp add: round64_def rne_def pow2_def Let_def binade_numeral)

lemma round64_equity: "round64 (100000 + (9900 + 5 / 2 ^ 39)) = 109900 + 1 / 2 ^ 36"
  by (simp add: round64_def rne_def pow2_def Let_def binade_numeral)

lemma round64_diff: "round64 (109900 + 1 / 2 ^ 36 - 100000) = 9900 + 1 / 2 ^ 36"
  by (simp add: round64_def rne_def pow2_def Let_def binade_numeral)

lemma round64_100000: "round64 100000 = 100000"
  by (simp add: round64_def rne_def pow2_def Let_def binade_numeral)


lemma gain_after_gap_position: "position gain_after_gap = [0, 0, 0, 1]"
  by (simp add: gain_after_gap_def mk_bar_def position_def signal_def signal_cell_def
      fillna_def shift1_def)

lemma gain_after_gap_trade_cost: "trade_cost gain_after_gap = [0, 0, 0, 100]"
  by (simp add: trade_cost_def gain_after_gap_position shift1_def trade_cost_cell_def
      transaction_cost_def)

lemma gain_after_gap_trade_return64:
  "trade_return64 gain_after_gap = [Some 0, Some 0, Some 0, Some (450359962737050 / 2 ^ 52)]"
  unfolding trade_return64_def gain_after_gap_position
  by (simp add: gain_after_gap_def mk_bar_def shift1_def trade_return64_cell_def
      round64_def rne_def pow2_def Let_def binade_numeral)

lemma gain_after_gap_net_pnl64:
  "net_pnl64 gain_after_gap = [Some 0, Some 0, Some 0, Some (9900 + 5 / 2 ^ 39)]"
  unfolding net_pnl64_def trade_pnl64_def gain_after_gap_trade_return64
    gain_after_gap_trade_cost
  by (simp add: initial_capital_def round64_def rne_def pow2_def Let_def binade_numeral)

lemma gain_after_gap_equity64:
  "equity64 gain_after_gap =
     [Some 100000, Some 100000, Some 100000, Some (109900 + 1 / 2 ^ 36)]"
  unfolding equity64_def gain_after_gap_net_pnl64
  by (simp add: initial_capital_def round64_def rne_def pow2_def Let_def binade_numeral)

text \<open>
  In float64 the equality is not exact. On \<open>gain_after_gap\<close> the only net P&L that is not
  0 is \<open>9900 + 5 / 2^39\<close> (the rounded return \<open>110 / 100 - 1\<close> times the capital, less the
  cost). Added to 100000 it rounds to \<open>109900 + 1 / 2^36\<close>, so the final equity minus
  the initial capital is \<open>9900 + 8 / 2^39\<close>, which is not the sum of the net P&L.
\<close>

theorem C2_reconciliation_counterexample:
  "net_pnl64 gain_after_gap = [Some 0, Some 0, Some 0, Some (9900 + 5 / 2 ^ 39)]
   \<and> nansum (net_pnl64 gain_after_gap) = 9900 + 5 / 2 ^ 39
   \<and> last (equity64 gain_after_gap) = Some (109900 + 1 / 2 ^ 36)
   \<and> round64 (109900 + 1 / 2 ^ 36 - initial_capital) = 9900 + 1 / 2 ^ 36
   \<and> (9900 + 1 / 2 ^ 36 :: real) \<noteq> 9900 + 5 / 2 ^ 39"
proof -
  have 1: "nansum (net_pnl64 gain_after_gap) = 9900 + 5 / 2 ^ 39"
    by (simp add: gain_after_gap_net_pnl64 nansum_def)
  have 2: "last (equity64 gain_after_gap) = Some (109900 + 1 / 2 ^ 36)"
    by (simp add: gain_after_gap_equity64)
  have 3: "round64 (109900 + 1 / 2 ^ 36 - initial_capital) = 9900 + 1 / 2 ^ 36"
    by (simp add: initial_capital_def round64_def rne_def pow2_def Let_def binade_numeral)
  have 4: "(9900 + 1 / 2 ^ 36 :: real) \<noteq> 9900 + 5 / 2 ^ 39"
    by simp
  from gain_after_gap_net_pnl64 1 2 3 4 show ?thesis
    by blast
qed

subsection \<open>Drawdown of an equity series\<close>

lemma length_cummax_from: "length (cummax_from m es) = length es"
  by (induction es arbitrary: m) auto

lemma dd_from_bounds:
  "0 < m \<Longrightarrow> \<forall>e\<in>set es. 0 \<le> e \<Longrightarrow>
   \<forall>x\<in>set (map (\<lambda>(c, e). (c - e) / c) (zip (cummax_from m es) es)). 0 \<le> x \<and> x \<le> 1"
proof (induction es arbitrary: m)
  case Nil
  then show ?case by simp
next
  case (Cons e es)
  have pos: "0 < max m e" using Cons.prems(1) by simp
  have hd: "0 \<le> (max m e - e) / max m e \<and> (max m e - e) / max m e \<le> 1"
    using pos Cons.prems(2) by (simp add: divide_le_eq_1)
  have "\<forall>x\<in>set (map (\<lambda>(c, e). (c - e) / c) (zip (cummax_from (max m e) es) es)). 0 \<le> x \<and> x \<le> 1"
    using Cons.IH [OF pos] Cons.prems(2) by simp
  with hd show ?case by simp
qed

lemma dd_from_zero_iff:
  "0 < m \<Longrightarrow>
   (\<forall>x\<in>set (map (\<lambda>(c, e). (c - e) / c) (zip (cummax_from m es) es)). x = 0)
     \<longleftrightarrow> sorted (m # es)"
proof (induction es arbitrary: m)
  case Nil
  then show ?case by simp
next
  case (Cons e es)
  have pos: "0 < max m e" using Cons.prems by simp
  have hd: "(max m e - e) / max m e = 0 \<longleftrightarrow> m \<le> e"
    using pos by auto
  have tl: "(\<forall>x\<in>set (map (\<lambda>(c, e). (c - e) / c) (zip (cummax_from (max m e) es) es)). x = 0)
      \<longleftrightarrow> sorted (max m e # es)"
    by (rule Cons.IH [OF pos])
  have "(m \<le> e \<and> sorted (max m e # es)) \<longleftrightarrow> sorted (m # e # es)"
    by (auto simp: max_def)
  with hd tl show ?case by simp
qed

lemma length_drawdown: "length (drawdown es) = length es"
  by (cases es) (simp_all add: drawdown_def cummax_def length_cummax_from)

lemma drawdown_bounds:
  assumes "es \<noteq> []" and "0 < hd es" and "\<forall>e\<in>set es. 0 \<le> e"
  shows "\<forall>x\<in>set (drawdown es). 0 \<le> x \<and> x \<le> 1"
proof -
  from assms(1) obtain e es' where es: "es = e # es'" by (cases es) auto
  with assms have "0 < e" "\<forall>x\<in>set (e # es'). 0 \<le> x" by auto
  from dd_from_bounds [OF this] show ?thesis
    by (simp add: es drawdown_def cummax_def)
qed

lemma drawdown_zero_iff:
  assumes "es \<noteq> []" and "0 < hd es"
  shows "(\<forall>x\<in>set (drawdown es). x = 0) \<longleftrightarrow> sorted es"
proof -
  from assms(1) obtain e es' where es: "es = e # es'" by (cases es) auto
  with assms have "0 < e" by auto
  from dd_from_zero_iff [OF this, of "e # es'"] show ?thesis
    by (simp add: es drawdown_def cummax_def)
qed

lemma series_max_drawdown:
  assumes "es \<noteq> []" and "0 < hd es" and "\<forall>e\<in>set es. 0 \<le> e"
  shows "\<exists>m. series_max (drawdown es) = Some m \<and> 0 \<le> m \<and> m \<le> 1 \<and> (m = 0 \<longleftrightarrow> sorted es)"
proof -
  let ?dd = "drawdown es"
  have ne: "?dd \<noteq> []"
    using assms(1) length_drawdown [of es] by auto
  then have mem: "Max (set ?dd) \<in> set ?dd"
    by (intro Max_in) auto
  have b: "\<forall>x\<in>set ?dd. 0 \<le> x \<and> x \<le> 1"
    using assms by (rule drawdown_bounds)
  have "Max (set ?dd) = 0 \<longleftrightarrow> (\<forall>x\<in>set ?dd. x = 0)"
  proof
    assume z: "Max (set ?dd) = 0"
    show "\<forall>x\<in>set ?dd. x = 0"
    proof
      fix x assume x: "x \<in> set ?dd"
      then have "x \<le> Max (set ?dd)" by (intro Max_ge) auto
      with z b x show "x = 0" by force
    qed
  next
    assume "\<forall>x\<in>set ?dd. x = 0"
    with mem show "Max (set ?dd) = 0" by blast
  qed
  then have "Max (set ?dd) = 0 \<longleftrightarrow> sorted es"
    using drawdown_zero_iff [OF assms(1,2)] by simp
  with b mem ne show ?thesis
    by (auto simp: series_max_def)
qed

subsection \<open>Resampling buckets\<close>

lemma cumsum_from_all_some:
  "\<forall>x\<in>set xs. x \<noteq> None \<Longrightarrow> \<forall>y\<in>set (cumsum_from a xs). y \<noteq> None"
  by (induction a xs rule: cumsum_from.induct) auto

lemma equity_all_some: "\<forall>x\<in>set (equity df). x \<noteq> None"
  using cumsum_from_all_some [OF net_pnl_all_some, of 0 df]
  by (auto simp: equity_def cumsum_def)

lemma nanlast_None_iff: "nanlast xs = None \<longleftrightarrow> (\<forall>x\<in>set xs. x = None)"
  by (induction xs) (auto split: option.splits)

lemma set_bucket_cells_subset: "set (bucket_cells key b df col) \<subseteq> set col"
  by (auto simp: bucket_cells_def dest: set_zip_rightD)

lemma bucket_cells_empty_iff:
  assumes "length col = length df"
  shows "bucket_cells key b df col = [] \<longleftrightarrow> (\<forall>r\<in>set df. key (datetime r) \<noteq> b)"
proof
  assume e: "bucket_cells key b df col = []"
  show "\<forall>r\<in>set df. key (datetime r) \<noteq> b"
  proof
    fix r assume "r \<in> set df"
    then obtain i where i: "i < length df" "df ! i = r"
      by (auto simp: in_set_conv_nth)
    with assms have "(r, col ! i) \<in> set (zip df col)"
      by (auto simp: in_set_zip)
    with e show "key (datetime r) \<noteq> b"
      by (auto simp: bucket_cells_def filter_empty_conv)
  qed
next
  assume "\<forall>r\<in>set df. key (datetime r) \<noteq> b"
  then show "bucket_cells key b df col = []"
    by (auto simp: bucket_cells_def filter_empty_conv dest: set_zip_leftD)
qed

lemma bucket_equity_None_iff:
  "nanlast (bucket_cells key b df (equity df)) = None \<longleftrightarrow> (\<forall>r\<in>set df. key (datetime r) \<noteq> b)"
proof -
  have "nanlast (bucket_cells key b df (equity df)) = None
      \<longleftrightarrow> bucket_cells key b df (equity df) = []"
  proof
    assume n: "nanlast (bucket_cells key b df (equity df)) = None"
    show "bucket_cells key b df (equity df) = []"
    proof (rule ccontr)
      assume "bucket_cells key b df (equity df) \<noteq> []"
      then obtain x where x: "x \<in> set (bucket_cells key b df (equity df))"
        by (cases "bucket_cells key b df (equity df)") auto
      with n have "x = None" by (simp add: nanlast_None_iff)
      moreover from x have "x \<in> set (equity df)"
        using set_bucket_cells_subset [of key b df "equity df"] by auto
      ultimately show False using equity_all_some by blast
    qed
  next
    assume "bucket_cells key b df (equity df) = []"
    then show "nanlast (bucket_cells key b df (equity df)) = None" by simp
  qed
  then show ?thesis
    by (simp add: bucket_cells_empty_iff length_equity)
qed

lemma set_bucket_keys:
  "ks \<noteq> [] \<Longrightarrow> set (bucket_keys ks) = {Min (set ks)..Max (set ks)}"
  by (simp add: bucket_keys_def)

lemma bucket_keys_cover: "set ks \<subseteq> set (bucket_keys ks)"
proof (cases "ks = []")
  case True
  then show ?thesis by simp
next
  case False
  then show ?thesis
    by (auto simp: set_bucket_keys)
qed

lemma dropna_set:
  "set (dropna tab) = {(b, s, v). (b, s, Some v) \<in> set tab}"
  by (force simp: dropna_def List.map_filter_def image_iff)

lemma daily_buckets:
  "fst ` set (daily df) = (\<lambda>r. day_no (datetime r)) ` set df"
proof
  show "fst ` set (daily df) \<subseteq> (\<lambda>r. day_no (datetime r)) ` set df"
  proof
    fix b assume "b \<in> fst ` set (daily df)"
    then obtain s v where "(b, s, Some v) \<in> set (resample day_no df)"
      by (auto simp: daily_def dropna_set)
    then have "nanlast (bucket_cells day_no b df (equity df)) = Some v"
      by (auto simp: resample_def)
    then have "\<not> (\<forall>r\<in>set df. day_no (datetime r) \<noteq> b)"
      using bucket_equity_None_iff [of day_no b df] by simp
    then show "b \<in> (\<lambda>r. day_no (datetime r)) ` set df" by auto
  qed
next
  show "(\<lambda>r. day_no (datetime r)) ` set df \<subseteq> fst ` set (daily df)"
  proof
    fix b assume b: "b \<in> (\<lambda>r. day_no (datetime r)) ` set df"
    then have "b \<in> set (map (\<lambda>r. day_no (datetime r)) df)" by simp
    then have k: "b \<in> set (bucket_keys (map (\<lambda>r. day_no (datetime r)) df))"
      using bucket_keys_cover by blast
    from b have "nanlast (bucket_cells day_no b df (equity df)) \<noteq> None"
      using bucket_equity_None_iff [of day_no b df] by auto
    then obtain v where "nanlast (bucket_cells day_no b df (equity df)) = Some v"
      by auto
    with k have "(b, nansum (bucket_cells day_no b df (net_pnl df)), Some v)
        \<in> set (resample day_no df)"
      by (auto simp: resample_def)
    then have "(b, nansum (bucket_cells day_no b df (net_pnl df)), v) \<in> set (daily df)"
      by (simp add: daily_def dropna_set)
    then show "b \<in> fst ` set (daily df)" by force
  qed
qed

lemma daily_nonempty: "df \<noteq> [] \<Longrightarrow> daily df \<noteq> []"
proof
  assume "df \<noteq> []" and "daily df = []"
  then have "set df \<noteq> {}" and "fst ` set (daily df) = {}"
    by auto
  then show False
    using daily_buckets [of df] by simp
qed

subsection \<open>The example frames evaluated\<close>

lemma whipsaw_equity:
  "equity whipsaw = [Some 100000, Some 100000, Some 100000, Some 39900, Some (- 20200)]"
  by (simp add: equity_def whipsaw_net_pnl cumsum_def initial_capital_def)

lemma whipsaw_days:
  "map (\<lambda>r. day_no (datetime r)) whipsaw = [19723, 19724, 19725, 19726, 19727]"
  by (simp add: whipsaw_def mk_bar_def ts_def day_no_def)

lemma bucket_cells_keys:
  "bucket_cells key b df col =
     map snd (filter (\<lambda>(k, v). k = b) (zip (map (\<lambda>r. key (datetime r)) df) col))"
  by (simp add: bucket_cells_def zip_map1 filter_map comp_def case_prod_unfold)

lemma whipsaw_daily:
  "daily whipsaw =
     [(19723, 0, 100000), (19724, 0, 100000), (19725, 0, 100000), (19726, - 60100, 39900),
      (19727, - 60100, - 20200)]"
  unfolding daily_def resample_def bucket_cells_keys whipsaw_days whipsaw_equity whipsaw_net_pnl
  by (simp add: bucket_keys_def nansum_def dropna_def)

lemma whipsaw_max_dd: "max_dd whipsaw = Some (601 / 500)"
  by (simp add: max_dd_def daily_equity_def whipsaw_daily drawdown_def cummax_def series_max_def)

subsection \<open>Maximum drawdown\<close>

text \<open>
  Claim C3, as amended. For every frame of valid bars whose daily equity is positive on
  the first day and never negative, the maximum drawdown of the daily equity series is a
  number between 0 and 1, and it is 0 exactly when the daily equity never decreases.
\<close>

theorem C3_max_drawdown:
  "df \<noteq> [] \<Longrightarrow> valid_bars df \<Longrightarrow> 0 < hd (daily_equity df) \<Longrightarrow>
   \<forall>e\<in>set (daily_equity df). 0 \<le> e \<Longrightarrow>
     \<exists>m. max_dd df = Some m \<and> 0 \<le> m \<and> m \<le> 1 \<and> (m = 0 \<longleftrightarrow> sorted (daily_equity df))"
proof -
  assume ne: "df \<noteq> []" and pos: "0 < hd (daily_equity df)"
    and nn: "\<forall>e\<in>set (daily_equity df). 0 \<le> e"
  from ne have "daily_equity df \<noteq> []"
    using daily_nonempty [of df] by (simp add: daily_equity_def)
  from series_max_drawdown [OF this pos nn] show ?thesis
    by (simp add: max_dd_def)
qed

lemma flat_after_run_net_pnl:
  "net_pnl flat_after_run = [Some 0, Some 0, Some 0, Some 900, Some 0]"
  by (simp add: flat_after_run_def mk_bar_def net_pnl_def trade_pnl_def trade_return_def
      trade_cost_def trade_return_cell_def trade_cost_cell_def position_def signal_def
      signal_cell_def fillna_def shift1_def initial_capital_def transaction_cost_def)

lemma flat_after_run_equity:
  "equity flat_after_run = [Some 100000, Some 100000, Some 100000, Some 100900, Some 100900]"
  by (simp add: equity_def flat_after_run_net_pnl cumsum_def initial_capital_def)

lemma flat_after_run_days:
  "map (\<lambda>r. day_no (datetime r)) flat_after_run = [19723, 19724, 19725, 19726, 19727]"
  by (simp add: flat_after_run_def mk_bar_def ts_def day_no_def)

lemma flat_after_run_daily:
  "daily flat_after_run =
     [(19723, 0, 100000), (19724, 0, 100000), (19725, 0, 100000), (19726, 900, 100900),
      (19727, 0, 100900)]"
  unfolding daily_def resample_def bucket_cells_keys flat_after_run_days flat_after_run_equity
    flat_after_run_net_pnl
  by (simp add: bucket_keys_def nansum_def dropna_def)

theorem C3_max_drawdown_witness:
  "flat_after_run \<noteq> [] \<and> valid_bars flat_after_run
   \<and> daily_equity flat_after_run = [100000, 100000, 100000, 100900, 100900]
   \<and> max_dd flat_after_run = Some 0 \<and> sorted (daily_equity flat_after_run)"
proof -
  have h1: "flat_after_run \<noteq> []"
    by (simp add: flat_after_run_def)
  have h2: "valid_bars flat_after_run"
    by (simp add: flat_after_run_def valid_bars_def mk_bar_def)
  have eq: "daily_equity flat_after_run = [100000, 100000, 100000, 100900, 100900]"
    by (simp add: daily_equity_def flat_after_run_daily)
  have h3: "0 < hd (daily_equity flat_after_run)"
    by (simp add: eq)
  have h4: "\<forall>e\<in>set (daily_equity flat_after_run). 0 \<le> e"
    by (simp add: eq)
  have s: "sorted (daily_equity flat_after_run)"
    by (simp add: eq)
  from C3_max_drawdown [OF h1 h2 h3 h4] s have "max_dd flat_after_run = Some 0"
    by auto
  with s h1 h2 eq show ?thesis
    by blast
qed

text \<open>
  Without the condition on the sign of the equity the bound fails: the P&L of a bar is
  a return on the fixed notional \<open>initial_capital\<close>, so two losses of 60 percent take the
  equity below zero and the drawdown above 1.
\<close>

theorem C3_max_drawdown_counterexample:
  "valid_bars whipsaw \<and> max_dd whipsaw = Some (601 / 500) \<and> (1 :: real) < 601 / 500"
  by (simp add: whipsaw_max_dd) (simp add: whipsaw_def valid_bars_def mk_bar_def)

subsection \<open>Monthly tables of the example frames\<close>

lemma length_ffill_from: "length (ffill_from p xs) = length xs"
  by (induction p xs rule: ffill_from.induct) auto

lemma bucket_keys_nonempty: "ks \<noteq> [] \<Longrightarrow> bucket_keys ks \<noteq> []"
proof -
  assume ne: "ks \<noteq> []"
  then have "Max (set ks) \<in> set ks"
    by (intro Max_in) auto
  then have le: "Min (set ks) \<le> Max (set ks)"
    by (intro Min_le) auto
  have "[Min (set ks)..Max (set ks)] \<noteq> []"
    using le by (subst upto.simps) simp
  with ne show ?thesis
    unfolding bucket_keys_def by simp
qed

lemma length_monthly_equity: "length (monthly_equity df) = length (monthly df)"
  by (simp add: monthly_equity_def)

lemma monthly_nonempty: "df \<noteq> [] \<Longrightarrow> monthly df \<noteq> []"
  using bucket_keys_nonempty [of "map (\<lambda>r. month_no (datetime r)) df"]
  by (simp add: monthly_def resample_def)

lemma gap_months_net_pnl:
  "net_pnl gap_months = [Some 0, Some 0, Some 9900, Some (100000 / 9), Some 10000]"
  by (simp add: gap_months_def mk_bar_def net_pnl_def trade_pnl_def trade_return_def
      trade_cost_def trade_return_cell_def trade_cost_cell_def position_def signal_def
      signal_cell_def fillna_def shift1_def initial_capital_def transaction_cost_def)

lemma gap_months_equity:
  "equity gap_months =
     [Some 100000, Some 100000, Some 109900, Some (1089100 / 9), Some (1179100 / 9)]"
  by (simp add: equity_def gap_months_net_pnl cumsum_def initial_capital_def)

lemma gap_months_months:
  "map (\<lambda>r. month_no (datetime r)) gap_months = [24288, 24288, 24290, 24290, 24291]"
  by (simp add: gap_months_def mk_bar_def ts_def month_no_def)

lemma gap_months_monthly:
  "monthly gap_months =
     [(24288, 0, Some 100000), (24289, 0, None), (24290, 9900 + 100000 / 9, Some (1089100 / 9)),
      (24291, 10000, Some (1179100 / 9))]"
  unfolding monthly_def resample_def bucket_cells_keys gap_months_months gap_months_equity
    gap_months_net_pnl
  by (simp add: bucket_keys_def nansum_def)

subsection \<open>Sharpe ratio\<close>

lemma finite_values_Some:
  "finite_values vs = Some xs \<Longrightarrow> vs = map Fin xs"
proof (induction vs arbitrary: xs rule: finite_values.induct)
  case 1
  then show ?case by simp
next
  case (2 x vs)
  then show ?case by auto
qed simp_all

lemma finite_values_None_iff:
  "finite_values vs = None \<longleftrightarrow> PInf \<in> set vs \<or> NInf \<in> set vs \<or> NaN \<in> set vs"
  by (induction vs rule: finite_values.induct) auto

lemma finite_values_observations:
  "finite_values (observations vs) = None \<longleftrightarrow> PInf \<in> set vs \<or> NInf \<in> set vs"
  by (auto simp: finite_values_None_iff observations_def)

lemma sample_std_nonneg: "0 \<le> sample_std xs"
proof -
  have "0 \<le> sum_list (map (\<lambda>x. (x - sample_mean xs)\<^sup>2) xs)"
    by (rule sum_list_nonneg) auto
  then show ?thesis
    by (simp add: sample_std_def)
qed

lemma std_None_iff:
  "std vs = None \<longleftrightarrow>
     length (observations vs) < 2 \<or> PInf \<in> set vs \<or> NInf \<in> set vs"
  by (auto simp: std_def Let_def finite_values_observations)

lemma std_Some_mean:
  assumes "std vs = Some s"
  shows "\<exists>m. mean vs = Fin m" and "0 \<le> s"
proof -
  from assms have len: "\<not> length (observations vs) < 2"
    by (auto simp: std_def Let_def split: if_splits)
  with assms obtain xs where xs: "finite_values (observations vs) = Some xs"
    and s: "s = sample_std xs"
    by (auto simp: std_def Let_def)
  from len have "observations vs \<noteq> []" by auto
  with xs show "\<exists>m. mean vs = Fin m"
    by (simp add: mean_def Let_def)
  from s show "0 \<le> s"
    by (simp add: sample_std_nonneg)
qed

lemma sharpe_of_NaN_iff:
  "sharpe_of vs = NaN \<longleftrightarrow>
     length (observations vs) < 2 \<or> PInf \<in> set vs \<or> NInf \<in> set vs \<or> std vs = Some 0"
proof (cases "std vs")
  case None
  then show ?thesis
    using std_None_iff [of vs] by (simp add: sharpe_of_def)
next
  case (Some s)
  then have n: "\<not> (length (observations vs) < 2 \<or> PInf \<in> set vs \<or> NInf \<in> set vs)"
    using std_None_iff [of vs] by simp
  from std_Some_mean [OF Some] obtain m where "mean vs = Fin m" and "0 \<le> s"
    by blast
  with Some n show ?thesis
    by (auto simp: sharpe_of_def)
qed

lemma sharpe_of_value:
  "sharpe_of vs =
     (case (mean vs, std vs) of
        (Fin m, Some s) \<Rightarrow> if s = 0 then NaN else Fin (m / s * sqrt 252)
      | _ \<Rightarrow> NaN)"
proof (cases "std vs")
  case None
  then show ?thesis
    by (simp add: sharpe_of_def split: fval.splits)
next
  case (Some s)
  from std_Some_mean [OF Some] obtain m where "mean vs = Fin m" and "0 \<le> s"
    by blast
  with Some show ?thesis
    by (auto simp: sharpe_of_def)
qed

text \<open>
  Claim C4, as amended. For every frame of valid bars the Sharpe ratio is NaN exactly when
  the sample of daily returns (its cells that are not NaN) has fewer than 2 observations,
  or holds an infinite return (a day that starts from an equity of exactly 0, which makes
  the standard deviation NaN), or has a standard deviation of 0; otherwise it is mean /
  standard deviation times the square root of 252. Lines 70 to 72 have no raising branch:
  the degenerate cases are the value NaN.
\<close>

theorem C4_sharpe:
  "valid_bars df \<Longrightarrow>
     (sharpe df = NaN \<longleftrightarrow>
        length (observations (daily_ret df)) < 2
        \<or> PInf \<in> set (daily_ret df) \<or> NInf \<in> set (daily_ret df)
        \<or> std (daily_ret df) = Some 0)
     \<and> sharpe df =
         (case (mean (daily_ret df), std (daily_ret df)) of
            (Fin m, Some s) \<Rightarrow> if s = 0 then NaN else Fin (m / s * sqrt 252)
          | _ \<Rightarrow> NaN)"
  using sharpe_of_NaN_iff [of "daily_ret df"] sharpe_of_value [of "daily_ret df"]
  by (simp add: sharpe_def)

lemma whipsaw_daily_ret:
  "daily_ret whipsaw = [Fin 0, Fin 0, Fin 0, Fin (- (601 / 1000)), Fin (- (601 / 399))]"
  by (simp add: daily_ret_def daily_equity_def whipsaw_daily shift1_def fillna_def fdiv_def
      initial_capital_def)

theorem C4_sharpe_witness:
  "valid_bars whipsaw
   \<and> daily_ret whipsaw = [Fin 0, Fin 0, Fin 0, Fin (- (601 / 1000)), Fin (- (601 / 399))]
   \<and> std (daily_ret whipsaw) \<noteq> Some 0
   \<and> sharpe whipsaw \<noteq> NaN"
proof -
  have h: "valid_bars whipsaw"
    by (simp add: whipsaw_def valid_bars_def mk_bar_def)
  have l: "\<not> length (observations (daily_ret whipsaw)) < 2"
    by (simp add: whipsaw_daily_ret observations_def)
  have i: "PInf \<notin> set (daily_ret whipsaw)" "NInf \<notin> set (daily_ret whipsaw)"
    by (simp_all add: whipsaw_daily_ret)
  have s: "std (daily_ret whipsaw) \<noteq> Some 0"
    by (simp add: whipsaw_daily_ret std_def observations_def sample_std_def sample_mean_def
        power2_eq_square)
  from C4_sharpe [OF h] l i s have "sharpe whipsaw \<noteq> NaN"
    by blast
  with h s whipsaw_daily_ret show ?thesis
    by blast
qed

lemma wipeout_net_pnl:
  "net_pnl wipeout = [Some 0, Some 0, Some 0, Some (- 100000), Some (- 100)]"
  by (simp add: wipeout_def mk_bar_def net_pnl_def trade_pnl_def trade_return_def trade_cost_def
      trade_return_cell_def trade_cost_cell_def position_def signal_def signal_cell_def fillna_def
      shift1_def initial_capital_def transaction_cost_def)

lemma wipeout_equity:
  "equity wipeout = [Some 100000, Some 100000, Some 100000, Some 0, Some (- 100)]"
  by (simp add: equity_def wipeout_net_pnl cumsum_def initial_capital_def)

lemma wipeout_days:
  "map (\<lambda>r. day_no (datetime r)) wipeout = [19723, 19724, 19725, 19726, 19727]"
  by (simp add: wipeout_def mk_bar_def ts_def day_no_def)

lemma wipeout_daily:
  "daily wipeout =
     [(19723, 0, 100000), (19724, 0, 100000), (19725, 0, 100000), (19726, - 100000, 0),
      (19727, - 100, - 100)]"
  unfolding daily_def resample_def bucket_cells_keys wipeout_days wipeout_equity wipeout_net_pnl
  by (simp add: bucket_keys_def nansum_def dropna_def)

lemma wipeout_daily_ret:
  "daily_ret wipeout = [Fin 0, Fin 0, Fin 0, Fin (- 1), NInf]"
  by (simp add: daily_ret_def daily_equity_def wipeout_daily shift1_def fillna_def fdiv_def
      initial_capital_def)

text \<open>
  On \<open>wipeout\<close> the fourth day ends with an equity of exactly 0, so the return of the
  fifth day is \<open>-100 / 0\<close>, minus infinity. The sample has 5 observations and its standard
  deviation is NaN, not 0, and the Sharpe ratio is NaN.
\<close>

theorem C4_sharpe_counterexample:
  "valid_bars wipeout
   \<and> daily_ret wipeout = [Fin 0, Fin 0, Fin 0, Fin (- 1), NInf]
   \<and> length (observations (daily_ret wipeout)) = 5
   \<and> std (daily_ret wipeout) = None
   \<and> sharpe wipeout = NaN"
proof -
  have h: "valid_bars wipeout"
    by (simp add: wipeout_def valid_bars_def mk_bar_def)
  have l: "length (observations (daily_ret wipeout)) = 5"
    by (simp add: wipeout_daily_ret observations_def)
  have s: "std (daily_ret wipeout) = None"
    by (simp add: wipeout_daily_ret std_def observations_def)
  have "sharpe wipeout = NaN"
    by (simp add: sharpe_def sharpe_of_def s)
  with h l s wipeout_daily_ret show ?thesis
    by blast
qed

subsection \<open>A frame of one bar\<close>

lemma single_net_pnl: "net_pnl [r] = [Some 0]"
  by (simp add: net_pnl_def trade_pnl_def trade_return_def trade_cost_def position_def
      signal_def fillna_def shift1_def trade_return_cell_def trade_cost_cell_def)

lemma single_equity: "equity [r] = [Some initial_capital]"
  by (simp add: equity_def single_net_pnl cumsum_def)

lemma single_resample: "resample key [r] = [(key (datetime r), 0, Some initial_capital)]"
  by (simp add: resample_def bucket_keys_def bucket_cells_def single_net_pnl single_equity
      nansum_def)

lemma single_daily: "daily [r] = [(day_no (datetime r), 0, initial_capital)]"
  by (simp add: daily_def single_resample dropna_def List.map_filter_def)

lemma single_daily_ret: "daily_ret [r] = [Fin 0]"
  by (simp add: daily_ret_def daily_equity_def single_daily fillna_def shift1_def fdiv_def
      initial_capital_def)

lemma single_sharpe: "sharpe [r] = NaN"
  by (simp add: sharpe_def sharpe_of_def std_def observations_def single_daily_ret)

lemma single_max_dd: "max_dd [r] = Some 0"
  by (simp add: max_dd_def daily_equity_def single_daily drawdown_def cummax_def
      series_max_def)

lemma single_trade_log: "trade_log [r] = []"
  by (simp add: trade_log_def trade_groups_def trade_id_def trade_start_def prev_position_def
      position_def signal_def fillna_def shift1_def List.map_filter_def single_net_pnl)

lemma single_monthly_return: "monthly_return [r] = [NaN]"
  by (simp add: monthly_return_def pct_change_def monthly_equity_def monthly_def
      single_resample shift1_def pct_change_cell_def)

text \<open>
  Claim C8, as amended. The run has no check of the number of bars and no
  InsufficientDataError. On a frame of one bar, with the SAR value the indicator returned
  for it, the run does not fail: it ends with a complete report, final equity
  \<open>initial_capital\<close>, total return 0, Sharpe ratio NaN, maximum drawdown 0, an empty
  trade log and one monthly row whose return is NaN.
\<close>

theorem C8_one_bar:
  "backtest [r] =
     Inr \<lparr>summary_metrics =
            \<lparr>final_equity = Some initial_capital, total_return_pct = Some 0,
             sharpe_ratio = NaN, max_drawdown = Some 0\<rparr>,
          trades = [],
          monthly_table = [((month_no (datetime r), 0, Some initial_capital), NaN)]\<rparr>"
  by (simp add: backtest_def single_equity single_sharpe single_max_dd single_trade_log
      single_monthly_return monthly_def single_resample initial_capital_def)

text \<open>
  A single bar does not make the run fail.
\<close>

theorem C8_one_bar_counterexample:
  "backtest [mk_bar (ts 2024 1 1) 90 90] =
     Inr \<lparr>summary_metrics =
            \<lparr>final_equity = Some 100000, total_return_pct = Some 0,
             sharpe_ratio = NaN, max_drawdown = Some 0\<rparr>,
          trades = [],
          monthly_table = [((24288, 0, Some 100000), NaN)]\<rparr>"
  by (simp add: backtest_def single_equity single_sharpe single_max_dd single_trade_log
      single_monthly_return monthly_def single_resample initial_capital_def month_no_def
      mk_bar_def ts_def)

subsection \<open>Monthly returns\<close>

lemma nanlast_append_Some: "nanlast (xs @ [Some a]) = Some a"
  by (induction xs) auto

lemma nanlast_append_None: "nanlast (xs @ [None]) = nanlast xs"
  by (induction xs) auto

lemma nanlast_take_Some:
  "i < length es \<Longrightarrow> es ! i = Some a \<Longrightarrow> nanlast (take (Suc i) es) = Some a"
  by (simp add: take_Suc_conv_app_nth nanlast_append_Some)

lemma nanlast_take_None:
  "i < length es \<Longrightarrow> es ! i = None \<Longrightarrow> nanlast (take (Suc i) es) = nanlast (take i es)"
  by (simp add: take_Suc_conv_app_nth nanlast_append_None)

lemma ffill_from_nth:
  "i < length es \<Longrightarrow>
   ffill_from p es ! i = (case nanlast (take (Suc i) es) of None \<Rightarrow> p | Some y \<Rightarrow> Some y)"
proof (induction p es arbitrary: i rule: ffill_from.induct)
  case (1 p)
  then show ?case by simp
next
  case (2 p xs)
  then show ?case
    by (cases i) (auto split: option.splits)
next
  case (3 p y xs)
  then show ?case
    by (cases i) (auto split: option.splits)
qed

lemma nanlast_take_first:
  assumes "es \<noteq> []" and "es ! 0 = Some c"
  shows "\<exists>a. nanlast (take (Suc i) es) = Some a"
proof -
  from assms obtain xs where "es = Some c # xs"
    by (cases es) auto
  then have "Some c \<in> set (take (Suc i) es)" by simp
  then have "nanlast (take (Suc i) es) \<noteq> None"
    using nanlast_None_iff [of "take (Suc i) es"] by force
  then show ?thesis by auto
qed

lemma length_pct_change: "length (pct_change es) = length es"
  by (simp add: pct_change_def Let_def length_shift1 length_ffill_from)

lemma length_monthly_return: "length (monthly_return df) = length (monthly df)"
  by (simp add: monthly_return_def length_pct_change length_monthly_equity)

lemma pct_change_hd: "es \<noteq> [] \<Longrightarrow> pct_change es ! 0 = NaN"
proof -
  assume ne: "es \<noteq> []"
  let ?f = "ffill_from None es"
  have "length ?f = length es"
    by (simp add: length_ffill_from)
  with ne have len: "0 < length ?f"
    by (cases es) auto
  then have "shift1 ?f ! 0 = None"
    by (simp add: shift1_nth)
  with len show ?thesis
    by (simp add: pct_change_def Let_def length_shift1 pct_change_cell_def
        split: option.splits)
qed

lemma pct_change_Suc:
  assumes "Suc i < length es"
    and "nanlast (take (Suc i) es) = Some a"
    and "nanlast (take (Suc (Suc i)) es) = Some b"
  shows "pct_change es ! Suc i = fmap (\<lambda>q. q - 1) (fdiv b a)"
proof -
  let ?f = "ffill_from None es"
  have len: "Suc i < length ?f"
    using assms(1) by (simp add: length_ffill_from)
  have fi: "?f ! i = Some a"
    using assms(1,2) by (simp add: ffill_from_nth)
  have fs: "?f ! Suc i = Some b"
    using assms(1,3) by (simp add: ffill_from_nth)
  have "shift1 ?f ! Suc i = Some (?f ! i)"
    using len by (simp add: shift1_nth)
  with fi have sh: "shift1 ?f ! Suc i = Some (Some a)" by simp
  have "pct_change es ! Suc i = pct_change_cell (?f ! Suc i) (shift1 ?f ! Suc i)"
    using len by (simp add: pct_change_def Let_def length_shift1)
  with fs sh show ?thesis
    by (simp add: pct_change_cell_def)
qed

lemma monthly_first_bucket:
  assumes "df \<noteq> []"
  shows "\<exists>c. monthly_equity df ! 0 = Some c"
proof -
  let ?ks = "map (\<lambda>r. month_no (datetime r)) df"
  from assms have ne: "?ks \<noteq> []" by simp
  then have mem: "Min (set ?ks) \<in> set ?ks"
    by (intro Min_in) auto
  from ne have "Max (set ?ks) \<in> set ?ks"
    by (intro Max_in) auto
  then have le: "Min (set ?ks) \<le> Max (set ?ks)"
    by (intro Min_le) auto
  have "bucket_keys ?ks = [Min (set ?ks)..Max (set ?ks)]"
    using ne by (simp add: bucket_keys_def)
  also have "\<dots> = Min (set ?ks) # [Min (set ?ks) + 1..Max (set ?ks)]"
    using le by (subst upto.simps) simp
  finally have "monthly_equity df ! 0 =
      nanlast (bucket_cells month_no (Min (set ?ks)) df (equity df))"
    by (simp add: monthly_equity_def monthly_def resample_def)
  moreover have "nanlast (bucket_cells month_no (Min (set ?ks)) df (equity df)) \<noteq> None"
    using mem bucket_equity_None_iff [of month_no "Min (set ?ks)" df] by auto
  ultimately show ?thesis by auto
qed

text \<open>
  Claim C9, as amended. For every frame of valid bars with at least one bar the monthly
  table has a first row, and the monthly return of that row is NaN, not zero. The monthly
  return of every later row is the percentage change of the equity filled forward: the
  last equity of the latest month up to the row that holds bars, against the last equity
  of the latest month before the row that holds bars. So for a month that holds bars and
  follows one that holds bars it is the change against the preceding month, and for a
  month without bars it is 0 (the equity carried forward not being 0).
\<close>

theorem C9_monthly_return:
  "df \<noteq> [] \<Longrightarrow> valid_bars df \<Longrightarrow>
     monthly_return df \<noteq> [] \<and> monthly_return df ! 0 = NaN
     \<and> (\<forall>i. Suc i < length (monthly df) \<longrightarrow>
           (\<exists>a b. nanlast (take (Suc i) (monthly_equity df)) = Some a
               \<and> nanlast (take (Suc (Suc i)) (monthly_equity df)) = Some b
               \<and> monthly_return df ! Suc i =
                   fmap (\<lambda>x. x * 100) (fmap (\<lambda>q. q - 1) (fdiv b a))))
     \<and> (\<forall>i a b. Suc i < length (monthly df) \<and> monthly_equity df ! i = Some a \<and> a \<noteq> 0
            \<and> monthly_equity df ! Suc i = Some b
          \<longrightarrow> monthly_return df ! Suc i = Fin ((b / a - 1) * 100))
     \<and> (\<forall>i. Suc i < length (monthly df) \<and> monthly_equity df ! Suc i = None
            \<and> nanlast (take (Suc i) (monthly_equity df)) \<noteq> Some 0
          \<longrightarrow> monthly_return df ! Suc i = Fin 0)"
proof -
  assume ne: "df \<noteq> []"
  let ?E = "monthly_equity df"
  from ne have m: "monthly df \<noteq> []" by (rule monthly_nonempty)
  then have e: "?E \<noteq> []"
    using length_monthly_equity [of df] by auto
  from monthly_first_bucket [OF ne] obtain c where c: "?E ! 0 = Some c" by blast
  have 1: "monthly_return df \<noteq> []"
    using m length_monthly_return [of df] by auto
  have 2: "monthly_return df ! 0 = NaN"
    using e pct_change_hd [OF e]
    by (simp add: monthly_return_def length_pct_change)
  have step: "monthly_return df ! Suc i = fmap (\<lambda>x. x * 100) (fmap (\<lambda>q. q - 1) (fdiv b a))"
    if "Suc i < length (monthly df)" "nanlast (take (Suc i) ?E) = Some a"
      "nanlast (take (Suc (Suc i)) ?E) = Some b" for i a b
  proof -
    from that(1) have l: "Suc i < length ?E"
      by (simp add: length_monthly_equity)
    from pct_change_Suc [OF l that(2,3)] l show ?thesis
      by (simp add: monthly_return_def length_pct_change)
  qed
  have 3: "\<exists>a b. nanlast (take (Suc i) ?E) = Some a
               \<and> nanlast (take (Suc (Suc i)) ?E) = Some b
               \<and> monthly_return df ! Suc i =
                   fmap (\<lambda>x. x * 100) (fmap (\<lambda>q. q - 1) (fdiv b a))"
    if "Suc i < length (monthly df)" for i
  proof -
    from nanlast_take_first [OF e c, of i] obtain a
      where a: "nanlast (take (Suc i) ?E) = Some a" by blast
    from nanlast_take_first [OF e c, of "Suc i"] obtain b
      where b: "nanlast (take (Suc (Suc i)) ?E) = Some b" by blast
    from step [OF that a b] a b show ?thesis by blast
  qed
  have 4: "monthly_return df ! Suc i = Fin ((b / a - 1) * 100)"
    if "Suc i < length (monthly df)" "?E ! i = Some a" "a \<noteq> 0" "?E ! Suc i = Some b"
    for i a b
  proof -
    from that(1) have l: "Suc i < length ?E" "i < length ?E"
      by (simp_all add: length_monthly_equity)
    have a: "nanlast (take (Suc i) ?E) = Some a"
      using l(2) that(2) by (rule nanlast_take_Some)
    have b: "nanlast (take (Suc (Suc i)) ?E) = Some b"
      using l(1) that(4) by (rule nanlast_take_Some)
    from step [OF that(1) a b] that(3) show ?thesis
      by (simp add: fdiv_def)
  qed
  have 5: "monthly_return df ! Suc i = Fin 0"
    if "Suc i < length (monthly df)" "?E ! Suc i = None"
      "nanlast (take (Suc i) ?E) \<noteq> Some 0" for i
  proof -
    from that(1) have l: "Suc i < length ?E"
      by (simp add: length_monthly_equity)
    from nanlast_take_first [OF e c, of i] obtain a
      where a: "nanlast (take (Suc i) ?E) = Some a" by blast
    with that(3) have a0: "a \<noteq> 0" by auto
    have b: "nanlast (take (Suc (Suc i)) ?E) = Some a"
      using nanlast_take_None [OF l that(2)] a by simp
    from step [OF that(1) a b] a0 show ?thesis
      by (simp add: fdiv_def)
  qed
  from 1 2 3 4 5 show ?thesis by blast
qed

lemma gain_after_gap_net_pnl:
  "net_pnl gain_after_gap = [Some 0, Some 0, Some 0, Some 9900]"
  by (simp add: gain_after_gap_def mk_bar_def net_pnl_def trade_pnl_def trade_return_def
      trade_cost_def trade_return_cell_def trade_cost_cell_def position_def signal_def
      signal_cell_def fillna_def shift1_def initial_capital_def transaction_cost_def)

lemma gain_after_gap_equity:
  "equity gain_after_gap = [Some 100000, Some 100000, Some 100000, Some 109900]"
  by (simp add: equity_def gain_after_gap_net_pnl cumsum_def initial_capital_def)

lemma gain_after_gap_months:
  "map (\<lambda>r. month_no (datetime r)) gain_after_gap = [24288, 24288, 24290, 24290]"
  by (simp add: gain_after_gap_def mk_bar_def ts_def month_no_def)

lemma gain_after_gap_monthly:
  "monthly gain_after_gap =
     [(24288, 0, Some 100000), (24289, 0, None), (24290, 9900, Some 109900)]"
  unfolding monthly_def resample_def bucket_cells_keys gain_after_gap_months
    gain_after_gap_equity gain_after_gap_net_pnl
  by (simp add: bucket_keys_def nansum_def)

lemma gain_after_gap_monthly_equity:
  "monthly_equity gain_after_gap = [Some 100000, None, Some 109900]"
  by (simp add: monthly_equity_def gain_after_gap_monthly)

theorem C9_monthly_return_witness:
  "gain_after_gap \<noteq> [] \<and> valid_bars gain_after_gap
   \<and> monthly_equity gain_after_gap = [Some 100000, None, Some 109900]
   \<and> monthly_return gain_after_gap ! 0 = NaN
   \<and> monthly_return gain_after_gap ! 1 = Fin 0"
proof -
  have h: "gain_after_gap \<noteq> []"
    by (simp add: gain_after_gap_def)
  have v: "valid_bars gain_after_gap"
    by (simp add: gain_after_gap_def valid_bars_def mk_bar_def)
  note c = C9_monthly_return [OF h v]
  have "Suc 0 < length (monthly gain_after_gap) \<and> monthly_equity gain_after_gap ! Suc 0 = None
      \<and> nanlast (take (Suc 0) (monthly_equity gain_after_gap)) \<noteq> Some 0"
    by (simp add: gain_after_gap_monthly gain_after_gap_monthly_equity)
  with c have "monthly_return gain_after_gap ! Suc 0 = Fin 0"
    by blast
  then have r1: "monthly_return gain_after_gap ! 1 = Fin 0"
    by simp
  from c have r0: "monthly_return gain_after_gap ! 0 = NaN"
    by blast
  from h v r0 r1 gain_after_gap_monthly_equity show ?thesis
    by blast
qed

text \<open>
  On \<open>gain_after_gap\<close> February holds no bar. Its bucketed equity is NaN, and so is the
  change of the bucketed equity from January to February and from February to March,
  yet the monthly returns reported are 0 for February and 9.9, the change against
  January, for March.
\<close>

theorem C9_monthly_return_counterexample:
  "monthly_equity gain_after_gap = [Some 100000, None, Some 109900]
   \<and> monthly_return gain_after_gap = [NaN, Fin 0, Fin (99 / 10)]
   \<and> pct_change_cell None (Some (Some 100000)) = NaN
   \<and> pct_change_cell (Some 109900) (Some None) = NaN"
  by (simp add: gain_after_gap_monthly_equity monthly_return_def pct_change_def shift1_def
      pct_change_cell_def fdiv_def)

subsection \<open>Monthly and daily buckets\<close>

lemma resample_buckets:
  "map fst (resample key df) = bucket_keys (map (\<lambda>r. key (datetime r)) df)"
  by (simp add: resample_def comp_def)

lemma resample_row:
  "(b, s, e) \<in> set (resample key df) \<Longrightarrow>
   s = nansum (bucket_cells key b df (net_pnl df))
   \<and> e = nanlast (bucket_cells key b df (equity df))"
  by (auto simp: resample_def)

lemma empty_bucket_row:
  assumes "(b, s, e) \<in> set (resample key df)"
  shows "(e = None \<longleftrightarrow> (\<forall>r\<in>set df. key (datetime r) \<noteq> b))
     \<and> ((\<forall>r\<in>set df. key (datetime r) \<noteq> b) \<longrightarrow> s = 0)"
proof -
  from resample_row [OF assms]
  have s: "s = nansum (bucket_cells key b df (net_pnl df))"
    and e: "e = nanlast (bucket_cells key b df (equity df))" by simp_all
  have 1: "e = None \<longleftrightarrow> (\<forall>r\<in>set df. key (datetime r) \<noteq> b)"
    unfolding e by (rule bucket_equity_None_iff)
  have 2: "s = 0" if "\<forall>r\<in>set df. key (datetime r) \<noteq> b"
  proof -
    from that have "bucket_cells key b df (net_pnl df) = []"
      by (simp add: bucket_cells_empty_iff length_net_pnl)
    with s show ?thesis by (simp add: nansum_def)
  qed
  from 1 2 show ?thesis by blast
qed

text \<open>
  Claim C10. For every frame of valid bars with at least one bar, the monthly table has one row for
  every calendar month from the earliest to the latest month of a bar; a row has NaN
  equity exactly when its month holds no bar, and then its net P&L is 0. The daily
  resampling makes a bucket for every calendar day from the earliest to the latest, and
  \<open>dropna\<close> leaves exactly the days that hold a bar.
\<close>

theorem C10_calendar_buckets:
  "df \<noteq> [] \<Longrightarrow> valid_bars df \<Longrightarrow>
     map fst (monthly df) =
       [Min (set (map (\<lambda>r. month_no (datetime r)) df))..
        Max (set (map (\<lambda>r. month_no (datetime r)) df))]
     \<and> (\<forall>b s e. (b, s, e) \<in> set (monthly df) \<longrightarrow>
           (e = None \<longleftrightarrow> (\<forall>r\<in>set df. month_no (datetime r) \<noteq> b))
           \<and> ((\<forall>r\<in>set df. month_no (datetime r) \<noteq> b) \<longrightarrow> s = 0))
     \<and> daily df = dropna (resample day_no df)
     \<and> map fst (resample day_no df) =
         [Min (set (map (\<lambda>r. day_no (datetime r)) df))..
          Max (set (map (\<lambda>r. day_no (datetime r)) df))]
     \<and> fst ` set (daily df) = (\<lambda>r. day_no (datetime r)) ` set df"
proof -
  assume ne: "df \<noteq> []"
  have 1: "map fst (monthly df) =
       [Min (set (map (\<lambda>r. month_no (datetime r)) df))..
        Max (set (map (\<lambda>r. month_no (datetime r)) df))]"
    using ne by (simp add: monthly_def resample_buckets bucket_keys_def)
  have 2: "\<forall>b s e. (b, s, e) \<in> set (monthly df) \<longrightarrow>
           (e = None \<longleftrightarrow> (\<forall>r\<in>set df. month_no (datetime r) \<noteq> b))
           \<and> ((\<forall>r\<in>set df. month_no (datetime r) \<noteq> b) \<longrightarrow> s = 0)"
    unfolding monthly_def using empty_bucket_row [of _ _ _ month_no df] by blast
  have 3: "map fst (resample day_no df) =
         [Min (set (map (\<lambda>r. day_no (datetime r)) df))..
          Max (set (map (\<lambda>r. day_no (datetime r)) df))]"
    using ne by (simp add: resample_buckets bucket_keys_def)
  from 1 2 3 daily_buckets [of df] show ?thesis
    by (simp add: daily_def)
qed

lemma gap_months_days:
  "map (\<lambda>r. day_no (datetime r)) gap_months = [19752, 19753, 19783, 19786, 19815]"
  by (simp add: gap_months_def mk_bar_def ts_def day_no_def)

theorem C10_calendar_buckets_witness:
  "gap_months \<noteq> [] \<and> valid_bars gap_months
   \<and> map fst (monthly gap_months) = [24288, 24289, 24290, 24291]
   \<and> (24289, 0, None) \<in> set (monthly gap_months)
   \<and> map (\<lambda>r. month_no (datetime r)) gap_months = [24288, 24288, 24290, 24290, 24291]
   \<and> fst ` set (daily gap_months) = {19752, 19753, 19783, 19786, 19815}
   \<and> length (resample day_no gap_months) = 64"
proof -
  have h: "gap_months \<noteq> []"
    by (simp add: gap_months_def)
  have v: "valid_bars gap_months"
    by (simp add: gap_months_def valid_bars_def mk_bar_def)
  note c = C10_calendar_buckets [OF h v]
  from c have c1: "map fst (monthly gap_months) =
       [Min (set (map (\<lambda>r. month_no (datetime r)) gap_months))..
        Max (set (map (\<lambda>r. month_no (datetime r)) gap_months))]"
    by blast
  from c have c4: "map fst (resample day_no gap_months) =
         [Min (set (map (\<lambda>r. day_no (datetime r)) gap_months))..
          Max (set (map (\<lambda>r. day_no (datetime r)) gap_months))]"
    by blast
  from c have c5: "fst ` set (daily gap_months) = (\<lambda>r. day_no (datetime r)) ` set gap_months"
    by blast
  have m: "map fst (monthly gap_months) = [24288, 24289, 24290, 24291]"
    using c1 unfolding gap_months_months by simp
  have f: "(24289, 0, None) \<in> set (monthly gap_months)"
    by (simp add: gap_months_monthly)
  note e = gap_months_months
  have "(\<lambda>r. day_no (datetime r)) ` set gap_months =
      set (map (\<lambda>r. day_no (datetime r)) gap_months)"
    by simp
  with c5 have d: "fst ` set (daily gap_months) = {19752, 19753, 19783, 19786, 19815}"
    unfolding gap_months_days by simp
  have "length (map fst (resample day_no gap_months)) = 64"
    using c4 unfolding gap_months_days by simp
  then have l: "length (resample day_no gap_months) = 64"
    by simp
  from h v m f e d l show ?thesis by blast
qed

subsection \<open>Trade log\<close>

text \<open>
  Claim C1 at the frame \<open>flat_after_run\<close>. The only non-flat run is the single bar of
  2024-01-04, whose close is 101. The group of its trade identifier also holds the flat
  bar of 2024-01-05, since only a trade start changes the identifier, and \<open>last\<close> takes
  the exit time and the exit price (95) from that flat bar.
\<close>

theorem C1_exit_from_flat_bar:
  "position flat_after_run = [0, 0, 0, 1, 0]
   \<and> trade_log flat_after_run =
       [\<lparr>entry_time = ts 2024 1 4, entry_price = 101,
         exit_time = ts 2024 1 5, exit_price = 95, direction = 1, pnl = 900\<rparr>]
   \<and> ts 2024 1 5 \<noteq> ts 2024 1 4"
proof -
  have p: "position flat_after_run = [0, 0, 0, 1, 0]"
    by (simp add: flat_after_run_def mk_bar_def position_def signal_def signal_cell_def
        fillna_def shift1_def)
  have i: "trade_id flat_after_run = [0, 0, 0, 1, 1]"
    by (simp add: trade_id_def trade_start_def prev_position_def p fillna_def shift1_def)
  have g: "trade_groups flat_after_run =
      [[(mk_bar (ts 2024 1 4) 101 101, 1, Some 900), (mk_bar (ts 2024 1 5) 95 101, 0, Some 0)]]"
    unfolding trade_groups_def i p flat_after_run_net_pnl
    by (simp add: flat_after_run_def)
  have t: "trade_log flat_after_run =
       [\<lparr>entry_time = ts 2024 1 4, entry_price = 101,
         exit_time = ts 2024 1 5, exit_price = 95, direction = 1, pnl = 900\<rparr>]"
    by (simp add: trade_log_def g List.map_filter_def mk_bar_def nansum_def)
  have "ts 2024 1 5 \<noteq> ts 2024 1 4"
    by (simp add: ts_def)
  with p t show ?thesis by blast
qed

end
